theory Spec2Isabelle
  imports Complex_Main "HOL-Library.Sublist" "HOL-Library.Product_Lexorder"
begin

section \<open>Data model\<close>

text \<open>
  Python strings are sequences of Unicode code points; a code point is a natural number
  (Isabelle's \<open>char\<close> has only 8 bits). ASCII literals of the program such as
  \<open>'svg'\<close> stay Isabelle strings. Python floats are modelled as real numbers.
\<close>

type_synonym ustring = "nat list"

type_synonym bbox = "real \<times> real \<times> real \<times> real"

text \<open>Values stored in the \<open>metadata\<close> dictionaries (\<open>Dict[str, Any]\<close>).\<close>

datatype meta_value =
    MStr ustring
  | MName string
  | MInt int
  | MReal real
  | MStrs "ustring list"

type_synonym metadata_dict = "(string \<times> meta_value) list"

text \<open>\<open>d[k] = v\<close> on a dictionary kept as an association list in insertion order.\<close>

fun dict_set :: "'k \<Rightarrow> 'v \<Rightarrow> ('k \<times> 'v) list \<Rightarrow> ('k \<times> 'v) list" where
  "dict_set k v [] = [(k, v)]"
| "dict_set k v ((k', v') # d) =
     (if k = k' then (k, v) # d else (k', v') # dict_set k v d)"

text \<open>\<open>ExtractedText\<close> of \<open>ayat_extractor_main.py\<close>.\<close>

record ExtractedText =
  etext :: ustring
  bbox :: bbox
  page :: int
  source :: string
  line_number :: "int option"
  confidence :: real
  metadata :: metadata_dict

text \<open>\<open>TextRegion\<close> and the part of \<open>PageAnalysis\<close> that the extractor reads
  (\<open>ai_analyzer.py\<close>). The region text is optional: the extractor writes
  \<open>ai_region.text or ''\<close>.\<close>

record TextRegion =
  r_bbox :: bbox
  r_text :: "ustring option"
  r_confidence :: real
  text_type :: string
  font_type :: string

record PageAnalysis =
  page_number :: int
  text_regions :: "TextRegion list"

section \<open>Text normalisation (\<open>text_processor_advanced.py\<close>)\<close>

text \<open>
  What the processor takes from outside the repository is a parameter of the model:
  \<^item> \<open>nfkc\<close>: \<open>unicodedata.normalize('NFKC', _)\<close>;
  \<^item> \<open>decimal_value\<close>: the Unicode decimal digits, the characters that \<open>\d\<close> matches and
    \<open>int\<close> reads, with the digit each one stands for;
  \<^item> \<open>font_manager\<close>: \<open>None\<close>, or the font manager's \<open>is_uthmani_symbol\<close> (membership
    in the symbol set read from the font file).
\<close>

record env =
  nfkc :: "ustring \<Rightarrow> ustring"
  decimal_value :: "nat \<Rightarrow> nat option"
  font_manager :: "(nat \<Rightarrow> bool) option"

text \<open>\<open>NORMALIZATION_RULES\<close>, one list per category, in the order of the literal and
  with the keys it repeats. Every key is a single character.\<close>

definition alef_variants :: "(nat \<times> ustring) list" where
  "alef_variants = [(0x0623, [0x0627]), (0x0625, [0x0627]), (0x0622, [0x0627]),
     (0x0671, [0x0627]), (0xFE83, [0x0627]), (0xFE87, [0x0627]), (0xFE81, [0x0627]),
     (0xFE8D, [0x0627]), (0xFE8E, [0x0627]), (0x0671, [0x0627]), (0x0672, [0x0627]),
     (0x0673, [0x0627]), (0x0675, [0x0627])]"

definition yaa_variants :: "(nat \<times> ustring) list" where
  "yaa_variants = [(0x0649, [0x064A]), (0xFEEF, [0x064A]), (0xFEF0, [0x064A]),
     (0xFEF1, [0x064A]), (0xFEF2, [0x064A]), (0x0649, [0x064A]), (0x064A, [0x064A]),
     (0x06CC, [0x064A])]"

definition taa_marbuta :: "(nat \<times> ustring) list" where
  "taa_marbuta = [(0x0629, [0x0647]), (0xFE93, [0x0647]), (0xFE94, [0x0647])]"

definition waw_variants :: "(nat \<times> ustring) list" where
  "waw_variants = [(0x0624, [0x0648]), (0xFEED, [0x0648]), (0xFEEE, [0x0648]),
     (0x06C4, [0x0648]), (0x06C5, [0x0648]), (0x06C6, [0x0648])]"

definition hamza_variants :: "(nat \<times> ustring) list" where
  "hamza_variants = [(0x0621, []), (0x0626, [0x064A]), (0x0624, [0x0648]), (0x0674, []),
     (0x0675, [])]"

definition letter_forms :: "(nat \<times> ustring) list" where
  "letter_forms = [(0xFE8F, [0x0628]), (0xFE90, [0x0628]), (0xFE91, [0x0628]),
     (0xFE92, [0x0628]), (0xFE95, [0x062A]), (0xFE96, [0x062A]), (0xFE97, [0x062A]),
     (0xFE98, [0x062A]), (0xFE99, [0x062B]), (0xFE9A, [0x062B]), (0xFE9B, [0x062B]),
     (0xFE9C, [0x062B]), (0xFE9D, [0x062C]), (0xFE9E, [0x062C]), (0xFE9F, [0x062C]),
     (0xFEA0, [0x062C]), (0xFEA1, [0x062D]), (0xFEA2, [0x062D]), (0xFEA3, [0x062D]),
     (0xFEA4, [0x062D]), (0xFEA5, [0x062E]), (0xFEA6, [0x062E]), (0xFEA7, [0x062E]),
     (0xFEA8, [0x062E]), (0xFEA9, [0x062F]), (0xFEAA, [0x062F]), (0xFEAB, [0x0630]),
     (0xFEAC, [0x0630]), (0xFEAD, [0x0631]), (0xFEAE, [0x0631]), (0xFEAF, [0x0632]),
     (0xFEB0, [0x0632]), (0xFEB1, [0x0633]), (0xFEB2, [0x0633]), (0xFEB3, [0x0633]),
     (0xFEB4, [0x0633]), (0xFEB5, [0x0634]), (0xFEB6, [0x0634]), (0xFEB7, [0x0634]),
     (0xFEB8, [0x0634]), (0xFEB9, [0x0635]), (0xFEBA, [0x0635]), (0xFEBB, [0x0635]),
     (0xFEBC, [0x0635]), (0xFEBD, [0x0636]), (0xFEBE, [0x0636]), (0xFEBF, [0x0636]),
     (0xFEC0, [0x0636]), (0xFEC1, [0x0637]), (0xFEC2, [0x0637]), (0xFEC3, [0x0637]),
     (0xFEC4, [0x0637]), (0xFEC5, [0x0638]), (0xFEC6, [0x0638]), (0xFEC7, [0x0638]),
     (0xFEC8, [0x0638]), (0xFEC9, [0x0639]), (0xFECA, [0x0639]), (0xFECB, [0x0639]),
     (0xFECC, [0x0639]), (0xFECD, [0x063A]), (0xFECE, [0x063A]), (0xFECF, [0x063A]),
     (0xFED0, [0x063A]), (0xFED1, [0x0641]), (0xFED2, [0x0641]), (0xFED3, [0x0641]),
     (0xFED4, [0x0641]), (0xFED5, [0x0642]), (0xFED6, [0x0642]), (0xFED7, [0x0642]),
     (0xFED8, [0x0642]), (0xFED9, [0x0643]), (0xFEDA, [0x0643]), (0xFEDB, [0x0643]),
     (0xFEDC, [0x0643]), (0x06A9, [0x0643]), (0x06AA, [0x0643]), (0xFEDD, [0x0644]),
     (0xFEDE, [0x0644]), (0xFEDF, [0x0644]), (0xFEE0, [0x0644]), (0xFEE1, [0x0645]),
     (0xFEE2, [0x0645]), (0xFEE3, [0x0645]), (0xFEE4, [0x0645]), (0xFEE5, [0x0646]),
     (0xFEE6, [0x0646]), (0xFEE7, [0x0646]), (0xFEE8, [0x0646]), (0xFEE9, [0x0647]),
     (0xFEEA, [0x0647]), (0xFEEB, [0x0647]), (0xFEEC, [0x0647]), (0xFEFB, [0x0644, 0x0627]),
     (0xFEFC, [0x0644, 0x0627])]"

text \<open>A dictionary literal and \<open>dict.update\<close>: later entries overwrite the value of an
  earlier key and keep its place.\<close>

definition dict_update :: "('k \<times> 'v) list \<Rightarrow> ('k \<times> 'v) list \<Rightarrow> ('k \<times> 'v) list" where
  "dict_update d entries = fold (\<lambda>(k, v) acc. dict_set k v acc) entries d"

definition NORMALIZATION_RULES :: "(nat \<times> ustring) list list" where
  "NORMALIZATION_RULES =
     map (dict_update [])
       [alef_variants, yaa_variants, taa_marbuta, waw_variants, hamza_variants, letter_forms]"

text \<open>\<open>_build_normalization_patterns\<close>: the merged table.\<close>

definition all_normalizations :: "(nat \<times> ustring) list" where
  "all_normalizations = fold (\<lambda>rules acc. dict_update acc rules) NORMALIZATION_RULES []"

definition DIACRITIC_RANGES :: "(nat \<times> nat) list" where
  "DIACRITIC_RANGES =
     [(0x064B, 0x0652), (0x0653, 0x065F), (0x0670, 0x0671),
      (0x06D6, 0x06ED), (0x08D3, 0x08FF), (0xFBB2, 0xFBC1)]"

definition diacritic_chars :: "nat list" where
  "diacritic_chars = concat (map (\<lambda>(start, end). [start ..< end + 1]) DIACRITIC_RANGES)"

text \<open>\<open>diacritic_pattern\<close> is the character class of \<open>diacritic_chars\<close>;
  \<open>diacritic_pattern.sub('', text)\<close> deletes every character of the class.\<close>

definition diacritic_sub :: "ustring \<Rightarrow> ustring" where
  "diacritic_sub t = filter (\<lambda>c. c \<notin> set diacritic_chars) t"

definition ARABIC_NUMBERS :: "(nat \<times> nat) list" where
  "ARABIC_NUMBERS =
     [(0x0660, 0x30), (0x0661, 0x31), (0x0662, 0x32), (0x0663, 0x33), (0x0664, 0x34),
      (0x0665, 0x35), (0x0666, 0x36), (0x0667, 0x37), (0x0668, 0x38), (0x0669, 0x39),
      (0x06F0, 0x30), (0x06F1, 0x31), (0x06F2, 0x32), (0x06F3, 0x33), (0x06F4, 0x34),
      (0x06F5, 0x35), (0x06F6, 0x36), (0x06F7, 0x37), (0x06F8, 0x38), (0x06F9, 0x39)]"

text \<open>Whitespace as \<open>str.strip\<close>, \<open>str.split\<close> and the pattern \<open>\s\<close> read it.\<close>

definition is_space :: "nat \<Rightarrow> bool" where
  "is_space c \<longleftrightarrow>
     (0x09 \<le> c \<and> c \<le> 0x0D) \<or> (0x1C \<le> c \<and> c \<le> 0x20) \<or> c = 0x85 \<or> c = 0xA0 \<or>
     c = 0x1680 \<or> (0x2000 \<le> c \<and> c \<le> 0x200A) \<or> c = 0x2028 \<or> c = 0x2029 \<or>
     c = 0x202F \<or> c = 0x205F \<or> c = 0x3000"

definition strip :: "ustring \<Rightarrow> ustring" where
  "strip t = rev (dropWhile is_space (rev (dropWhile is_space t)))"

text \<open>\<open>text.replace(old, new)\<close> for a one-character \<open>old\<close>.\<close>

definition str_replace :: "nat \<Rightarrow> ustring \<Rightarrow> ustring \<Rightarrow> ustring" where
  "str_replace old new t = concat (map (\<lambda>c. if c = old then new else [c]) t)"

text \<open>\<open>re.sub('[...]+', rep, text)\<close>: every maximal run of characters of the class is
  replaced by \<open>rep\<close>.\<close>

function sub_runs :: "(nat \<Rightarrow> bool) \<Rightarrow> ustring \<Rightarrow> ustring \<Rightarrow> ustring" where
  "sub_runs p rep [] = []"
| "sub_runs p rep (c # cs) =
     (if p c then rep @ sub_runs p rep (dropWhile p cs) else c # sub_runs p rep cs)"
  by pat_completeness auto
termination
  by (relation "measure (\<lambda>(p, rep, t). length t)")
     (auto simp: le_imp_less_Suc length_dropWhile_le)

text \<open>\<open>re.finditer('[...]+', text)\<close>: the maximal runs of the class, left to right,
  each with the index where it starts.\<close>

function find_runs :: "(nat \<Rightarrow> bool) \<Rightarrow> nat \<Rightarrow> ustring \<Rightarrow> (nat \<times> ustring) list" where
  "find_runs p pos [] = []"
| "find_runs p pos (c # cs) =
     (if p c
      then (pos, c # takeWhile p cs)
             # find_runs p (pos + Suc (length (takeWhile p cs))) (dropWhile p cs)
      else find_runs p (Suc pos) cs)"
  by pat_completeness auto
termination
  by (relation "measure (\<lambda>(p, pos, t). length t)")
     (auto simp: le_imp_less_Suc length_dropWhile_le)

text \<open>\<open>text.split()\<close>: the maximal runs of characters that are not whitespace.\<close>

definition split :: "ustring \<Rightarrow> ustring list" where
  "split t = map snd (find_runs (\<lambda>c. \<not> is_space c) 0 t)"

datatype level = Minimal | Basic | Full | Aggressive

definition normalize_text :: "env \<Rightarrow> ustring \<Rightarrow> level \<Rightarrow> ustring" where
  "normalize_text E t lvl =
     (if t = [] then []
      else let t0 = nfkc E t in
        if lvl = Minimal then t0
        else let
          t1 = (if lvl \<in> {Basic, Full, Aggressive}
                then fold (\<lambda>(old, new) acc. str_replace old new acc) all_normalizations t0
                else t0);
          t2 = (if lvl \<in> {Full, Aggressive} then diacritic_sub t1 else t1);
          t3 = (if lvl = Aggressive
                then sub_runs is_space [0x20]
                       (map (\<lambda>c. if (0x0621 \<le> c \<and> c \<le> 0x064A) \<or> (0x0671 \<le> c \<and> c \<le> 0x06D3)
                                        \<or> is_space c
                                  then c else 0x20) t2)
                else t2)
        in strip t3)"

definition is_decimal :: "env \<Rightarrow> nat \<Rightarrow> bool" where
  "is_decimal E c \<longleftrightarrow> decimal_value E c \<noteq> None"

text \<open>The character class of the special symbols that \<open>clean_text\<close> blanks: the ornate
  parentheses U+FD3E and U+FD3F, the end-of-ayah and rub-el-hizb signs U+06DD and U+06DE,
  the ASCII brackets, parentheses and braces, the guillemets and the double quote.\<close>

definition special_symbols :: "nat list" where
  "special_symbols =
     [0xFD3E, 0xFD3F, 0x06DD, 0x06DE, 0x5B, 0x5D, 0x28, 0x29, 0x7B, 0x7D, 0xAB, 0xBB, 0x22]"

definition clean_text :: "env \<Rightarrow> ustring \<Rightarrow> bool \<Rightarrow> ustring" where
  "clean_text E t keep_verse_numbers =
     (if t = [] then []
      else let
        t1 = normalize_text E t Basic;
        t2 = diacritic_sub t1;
        t3 = (if \<not> keep_verse_numbers
              then sub_runs (\<lambda>c. is_decimal E c \<or> (0x0660 \<le> c \<and> c \<le> 0x0669)
                                        \<or> (0x06F0 \<le> c \<and> c \<le> 0x06F9)) [0x20] t2
              else fold (\<lambda>(ar, en) acc. str_replace ar [en] acc) ARABIC_NUMBERS t2);
        t4 = map (\<lambda>c. if c \<in> set special_symbols then 0x20 else c) t3;
        t5 = sub_runs is_space [0x20] t4
      in strip t5)"

section \<open>Verse numbers (\<open>extract_verse_numbers\<close>)\<close>

record verse_number =
  arabic :: ustring
  english :: ustring
  vn_value :: nat
  position :: nat
  vn_context :: ustring

text \<open>\<open>int(s)\<close> on a string of decimal digits, given the value of each digit. The
  interpreter's limit on the number of digits is outside the model.\<close>

definition int_of_digits :: "(nat \<Rightarrow> nat) \<Rightarrow> ustring \<Rightarrow> nat" where
  "int_of_digits dv s = fold (\<lambda>c acc. 10 * acc + dv c) s 0"

definition english_digit :: "nat \<Rightarrow> nat" where
  "english_digit c = (case map_of ARABIC_NUMBERS c of Some e \<Rightarrow> e | None \<Rightarrow> c)"

definition context_of :: "ustring \<Rightarrow> nat \<Rightarrow> nat \<Rightarrow> ustring" where
  "context_of t start end = take (end + 10 - (start - 10)) (drop (start - 10) t)"

text \<open>The first loop: runs of the characters of \<open>ARABIC_NUMBERS\<close>.\<close>

definition arabic_verse_numbers :: "ustring \<Rightarrow> verse_number list" where
  "arabic_verse_numbers t =
     map (\<lambda>(start, arabic_num).
            let english_num = map english_digit arabic_num in
            \<lparr> arabic = arabic_num, english = english_num,
              vn_value = int_of_digits (\<lambda>c. c - 0x30) english_num,
              position = start,
              vn_context = context_of t start (start + length arabic_num) \<rparr>)
         (find_runs (\<lambda>c. c \<in> set (map fst ARABIC_NUMBERS)) 0 t)"

text \<open>The second loop: runs of \<open>\d\<close>, skipped when an entry already has the same
  \<open>english\<close> string.\<close>

fun english_verse_numbers ::
  "env \<Rightarrow> ustring \<Rightarrow> (nat \<times> ustring) list \<Rightarrow> verse_number list \<Rightarrow> verse_number list" where
  "english_verse_numbers E t [] verse_numbers = verse_numbers"
| "english_verse_numbers E t ((start, num) # rest) verse_numbers =
     (if \<not> list_ex (\<lambda>v. english v = num) verse_numbers
      then english_verse_numbers E t rest
             (verse_numbers @
               [\<lparr> arabic = num, english = num,
                  vn_value = int_of_digits
                    (\<lambda>c. case decimal_value E c of Some d \<Rightarrow> d | None \<Rightarrow> 0) num,
                  position = start,
                  vn_context = context_of t start (start + length num) \<rparr>])
      else english_verse_numbers E t rest verse_numbers)"

definition extract_verse_numbers :: "env \<Rightarrow> ustring \<Rightarrow> verse_number list" where
  "extract_verse_numbers E t =
     sort_key position
       (english_verse_numbers E t (find_runs (is_decimal E) 0 t) (arabic_verse_numbers t))"

section \<open>The library scorers\<close>

text \<open>
  \<open>_simple_similarity\<close> calls \<open>difflib.SequenceMatcher(None, a, b).ratio()\<close> and
  \<open>_levenshtein_similarity\<close> calls \<open>Levenshtein.distance\<close>. Both are library code; they
  are modelled here by what they compute.

  \<open>SequenceMatcher\<close> with no junk function and \<open>autojunk\<close> left on: when \<open>b\<close> has at least
  200 elements, the elements that occur more than \<open>len(b) // 100 + 1\<close> times are popular and
  start no match.
\<close>

definition bpopular :: "'a list \<Rightarrow> 'a set" where
  "bpopular b =
     (if 200 \<le> length b
      then set (filter (\<lambda>x. length b div 100 + 1 < count_list b x) b)
      else {})"

text \<open>The length of the longest common prefix, and of the longest common prefix made of
  elements that are not popular.\<close>

fun common_prefix :: "'a list \<Rightarrow> 'a list \<Rightarrow> nat" where
  "common_prefix (x # xs) (y # ys) = (if x = y then Suc (common_prefix xs ys) else 0)"
| "common_prefix _ _ = 0"

fun interesting_prefix :: "'a set \<Rightarrow> 'a list \<Rightarrow> 'a list \<Rightarrow> nat" where
  "interesting_prefix P (x # xs) (y # ys) =
     (if x = y \<and> y \<notin> P then Suc (interesting_prefix P xs ys) else 0)"
| "interesting_prefix P _ _ = 0"

text \<open>
  \<open>find_longest_match\<close> on the whole of \<open>a\<close> and \<open>b\<close>. Its main loop visits the pairs
  \<open>(i, j)\<close> row by row and keeps the first longest block of equal elements that are not
  popular (a block replaces the best one only when it is strictly longer); the block is
  then extended on both sides as long as the neighbouring elements are equal. The loop is
  written here over the positions where a block starts.
\<close>

definition longest_step ::
  "'a set \<Rightarrow> 'a list \<Rightarrow> 'a list \<Rightarrow> nat \<Rightarrow> nat \<Rightarrow> nat \<times> nat \<times> nat \<Rightarrow> nat \<times> nat \<times> nat" where
  "longest_step P a b i j best =
     (case best of (besti, bestj, bestsize) \<Rightarrow>
        let k = interesting_prefix P (drop i a) (drop j b)
        in if bestsize < k then (i, j, k) else (besti, bestj, bestsize))"

definition longest_interesting :: "'a set \<Rightarrow> 'a list \<Rightarrow> 'a list \<Rightarrow> nat \<times> nat \<times> nat" where
  "longest_interesting P a b =
     fold (\<lambda>i best. fold (\<lambda>j best'. longest_step P a b i j best') [0 ..< length b] best)
       [0 ..< length a] (0, 0, 0)"

definition find_longest_match :: "'a set \<Rightarrow> 'a list \<Rightarrow> 'a list \<Rightarrow> nat \<times> nat \<times> nat" where
  "find_longest_match P a b =
     (case longest_interesting P a b of (besti, bestj, bestsize) \<Rightarrow>
        let back = common_prefix (rev (take besti a)) (rev (take bestj b));
            i = besti - back;
            j = bestj - back;
            k = bestsize + back;
            forth = common_prefix (drop (i + k) a) (drop (j + k) b)
        in (i, j, k + forth))"

lemma interesting_prefix_le:
  "interesting_prefix P xs ys \<le> length xs \<and> interesting_prefix P xs ys \<le> length ys"
  by (induction P xs ys rule: interesting_prefix.induct) auto

lemma common_prefix_le:
  "common_prefix xs ys \<le> length xs \<and> common_prefix xs ys \<le> length ys"
  by (induction xs ys rule: common_prefix.induct) auto

definition block_ok :: "'a list \<Rightarrow> 'a list \<Rightarrow> nat \<times> nat \<times> nat \<Rightarrow> bool" where
  "block_ok a b m = (case m of (i, j, k) \<Rightarrow> i + k \<le> length a \<and> j + k \<le> length b)"

lemma longest_step_ok:
  assumes "block_ok a b best" "i < length a" "j < length b"
  shows "block_ok a b (longest_step P a b i j best)"
proof -
  have "interesting_prefix P (drop i a) (drop j b) \<le> length a - i"
       "interesting_prefix P (drop i a) (drop j b) \<le> length b - j"
    using interesting_prefix_le [of P "drop i a" "drop j b"] by simp_all
  with assms show ?thesis
    by (auto simp: longest_step_def block_ok_def Let_def split: prod.splits)
qed

lemma longest_row_ok:
  assumes "block_ok a b best" "i < length a" "n \<le> length b"
  shows "block_ok a b (fold (\<lambda>j best'. longest_step P a b i j best') [0 ..< n] best)"
  using assms(3)
proof (induction n)
  case 0
  show ?case using assms(1) by simp
next
  case (Suc n)
  then show ?case using assms(2) by (simp add: longest_step_ok)
qed

lemma longest_rows_ok:
  assumes "n \<le> length a"
  shows "block_ok a b
     (fold (\<lambda>i best. fold (\<lambda>j best'. longest_step P a b i j best') [0 ..< length b] best)
        [0 ..< n] (0, 0, 0))"
  using assms
proof (induction n)
  case 0
  show ?case by (simp add: block_ok_def)
next
  case (Suc n)
  then show ?case by (simp add: longest_row_ok)
qed

lemma longest_interesting_ok: "block_ok a b (longest_interesting P a b)"
  unfolding longest_interesting_def by (rule longest_rows_ok) simp

lemma find_longest_match_ok: "block_ok a b (find_longest_match P a b)"
proof -
  obtain bi bj bk where l: "longest_interesting P a b = (bi, bj, bk)"
    by (cases "longest_interesting P a b") auto
  with longest_interesting_ok [of a b P] have ok: "bi + bk \<le> length a" "bj + bk \<le> length b"
    by (simp_all add: block_ok_def)
  define m where "m = common_prefix (rev (take bi a)) (rev (take bj b))"
  have m: "m \<le> bi" "m \<le> bj"
    using common_prefix_le [of "rev (take bi a)" "rev (take bj b)"] ok
    by (simp_all add: m_def)
  define n where
    "n = common_prefix (drop (bi - m + (bk + m)) a) (drop (bj - m + (bk + m)) b)"
  have n: "n \<le> length a - (bi + bk)" "n \<le> length b - (bj + bk)"
    using common_prefix_le [of "drop (bi - m + (bk + m)) a" "drop (bj - m + (bk + m)) b"] m
    by (simp_all add: n_def)
  have eq: "find_longest_match P a b = (bi - m, bj - m, bk + m + n)"
    by (simp add: find_longest_match_def l Let_def m_def n_def)
  have "bi - m + (bk + m + n) \<le> length a" "bj - m + (bk + m + n) \<le> length b"
    using ok m n by linarith+
  then show ?thesis unfolding eq block_ok_def by simp
qed

text \<open>For a sequence matched with itself: the best block lies on the diagonal and is at
  least as long as the diagonal blocks that start before \<open>n\<close>.\<close>

definition diag_upto :: "'a set \<Rightarrow> 'a list \<Rightarrow> nat \<Rightarrow> nat \<times> nat \<times> nat \<Rightarrow> bool" where
  "diag_upto P c n best =
     (case best of (bi, bj, bk) \<Rightarrow>
        bi = bj \<and> (\<forall>d < n. interesting_prefix P (drop d c) (drop d c) \<le> bk))"

text \<open>
  \<open>get_matching_blocks\<close> splits around the longest match and goes on to the left and to
  the right of it; \<open>ratio\<close> needs only the sum of the block sizes.
\<close>

function matching_size :: "'a set \<Rightarrow> 'a list \<Rightarrow> 'a list \<Rightarrow> nat" where
  "matching_size P a b =
     (case find_longest_match P a b of (i, j, k) \<Rightarrow>
        if k = 0 then 0
        else (if 0 < i \<and> 0 < j then matching_size P (take i a) (take j b) else 0)
             + k
             + (if i + k < length a \<and> j + k < length b
                then matching_size P (drop (i + k) a) (drop (j + k) b) else 0))"
  by pat_completeness auto
termination
proof (relation "measure (\<lambda>(P, a, b). length a + length b)", goal_cases)
  case 1
  show ?case by simp
next
  case (2 P a b x i y)
  with find_longest_match_ok [of a b P] show ?case by (auto simp: block_ok_def)
next
  case (3 P a b x i y)
  then show ?case by auto
qed

declare matching_size.simps [simp del]

definition sequence_matcher_ratio :: "'a list \<Rightarrow> 'a list \<Rightarrow> real" where
  "sequence_matcher_ratio a b =
     (let matches = matching_size (bpopular b) a b;
          len = length a + length b
      in if len \<noteq> 0 then 2 * real matches / real len else 1)"

text \<open>\<open>Levenshtein.distance\<close>: the edit distance with unit costs.\<close>

fun levenshtein_distance :: "'a list \<Rightarrow> 'a list \<Rightarrow> nat" where
  "levenshtein_distance [] ys = length ys"
| "levenshtein_distance xs [] = length xs"
| "levenshtein_distance (x # xs) (y # ys) =
     min (levenshtein_distance xs (y # ys) + 1)
       (min (levenshtein_distance (x # xs) ys + 1)
            (levenshtein_distance xs ys + (if x = y then 0 else 1)))"

section \<open>Similarity (\<open>text_similarity\<close>)\<close>

definition simple_similarity :: "ustring \<Rightarrow> ustring \<Rightarrow> real" where
  "simple_similarity text1 text2 = sequence_matcher_ratio text1 text2"

definition levenshtein_similarity :: "ustring \<Rightarrow> ustring \<Rightarrow> real" where
  "levenshtein_similarity text1 text2 =
     (let distance = levenshtein_distance text1 text2;
          max_len = max (length text1) (length text2)
      in if max_len > 0 then 1 - real distance / real max_len else 0)"

text \<open>The pattern \<open>intersection / union if union > 0 else 0.0\<close> under the guard
  \<open>if s1 and s2\<close>, which the scorers repeat for words, characters and symbols.\<close>

definition set_similarity :: "'a set \<Rightarrow> 'a set \<Rightarrow> real" where
  "set_similarity s1 s2 =
     (if s1 \<noteq> {} \<and> s2 \<noteq> {}
      then let intersection = card (s1 \<inter> s2);
               union = card (s1 \<union> s2)
           in if union > 0 then real intersection / real union else 0
      else 0)"

definition calculate_symbols_bonus :: "env \<Rightarrow> ustring \<Rightarrow> ustring \<Rightarrow> real" where
  "calculate_symbols_bonus E text1 text2 =
     (case font_manager E of
        None \<Rightarrow> 0
      | Some is_uthmani_symbol \<Rightarrow>
          let symbols1 = set (filter is_uthmani_symbol text1);
              symbols2 = set (filter is_uthmani_symbol text2)
          in if symbols1 = {} \<and> symbols2 = {} then 0
             else set_similarity symbols1 symbols2)"

definition calculate_verse_number_bonus :: "env \<Rightarrow> ustring \<Rightarrow> ustring \<Rightarrow> real" where
  "calculate_verse_number_bonus E text1 text2 =
     (let verses1 = extract_verse_numbers E text1;
          verses2 = extract_verse_numbers E text2
      in if verses1 = [] \<or> verses2 = [] then 0
         else let values1 = set (map vn_value verses1);
                  values2 = set (map vn_value verses2)
              in if values1 = values2 then 1
                 else if values1 \<inter> values2 \<noteq> {} then 0.5
                 else 0)"

definition advanced_similarity :: "env \<Rightarrow> ustring \<Rightarrow> ustring \<Rightarrow> ustring \<Rightarrow> ustring \<Rightarrow> real" where
  "advanced_similarity E orig1 orig2 clean1 clean2 =
     (let word_similarity = set_similarity (set (split clean1)) (set (split clean2));
          char_similarity =
            set_similarity (set (str_replace 0x20 [] clean1)) (set (str_replace 0x20 [] clean2));
          len1 = length clean1;
          len2 = length clean2;
          length_similarity =
            (if max len1 len2 > 0 then real (min len1 len2) / real (max len1 len2) else 0);
          symbols_bonus = calculate_symbols_bonus E orig1 orig2
      in word_similarity * 0.4 + char_similarity * 0.3 + length_similarity * 0.2
           + symbols_bonus * 0.1)"

definition combined_similarity :: "env \<Rightarrow> ustring \<Rightarrow> ustring \<Rightarrow> ustring \<Rightarrow> ustring \<Rightarrow> real" where
  "combined_similarity E orig1 orig2 clean1 clean2 =
     (let simple = simple_similarity clean1 clean2;
          levenshtein = levenshtein_similarity clean1 clean2;
          advanced = advanced_similarity E orig1 orig2 clean1 clean2;
          verse_bonus = calculate_verse_number_bonus E orig1 orig2;
          combined = simple * 0.3 + levenshtein * 0.3 + advanced * 0.3 + verse_bonus * 0.1
      in min combined 1)"

datatype similarity_method = Simple | Levenshtein | Advanced | Combined | Other_method

definition text_similarity :: "env \<Rightarrow> ustring \<Rightarrow> ustring \<Rightarrow> similarity_method \<Rightarrow> real" where
  "text_similarity E text1 text2 m =
     (if text1 = [] \<or> text2 = [] then 0
      else let clean1 = clean_text E text1 False;
               clean2 = clean_text E text2 False
           in case m of
                Simple \<Rightarrow> simple_similarity clean1 clean2
              | Levenshtein \<Rightarrow> levenshtein_similarity clean1 clean2
              | Advanced \<Rightarrow> advanced_similarity E text1 text2 clean1 clean2
              | Combined \<Rightarrow> combined_similarity E text1 text2 clean1 clean2
              | Other_method \<Rightarrow> simple_similarity clean1 clean2)"

text \<open>What the two bonuses read from a raw text: the set of the verse numbers in it, and
  the set of its characters that the font manager takes for Uthmani symbols (none without
  a font manager).\<close>

definition verse_values :: "env \<Rightarrow> ustring \<Rightarrow> nat set" where
  "verse_values E t = set (map vn_value (extract_verse_numbers E t))"

definition uthmani_symbols :: "env \<Rightarrow> ustring \<Rightarrow> nat set" where
  "uthmani_symbols E t =
     (case font_manager E of None \<Rightarrow> {} | Some is_uthmani_symbol \<Rightarrow> set (filter is_uthmani_symbol t))"

section \<open>Verse matching (\<open>ayat_extractor_main.py\<close>)\<close>

text \<open>A row of the verse table (\<open>hafs_data\<close>) with the columns the matcher reads, and
  \<open>MatchedAyah\<close>. Of the \<open>metadata\<close> of a match only \<open>line_number\<close> is kept; the
  text analysis and the match details stored beside it are reports that nothing reads
  back.\<close>

record aya_row =
  row_page :: int
  row_sura_no :: int
  row_sura_name_ar :: ustring
  row_sura_name_en :: ustring
  row_aya_no :: int
  aya_text :: ustring
  row_text_clean :: ustring

record MatchedAyah =
  m_page :: int
  sura_no :: int
  sura_name_ar :: ustring
  sura_name_en :: ustring
  aya_no :: int
  text_uthmani :: ustring
  text_extracted :: ustring
  text_clean :: ustring
  similarity :: real
  m_bbox :: bbox
  m_source :: string
  extraction_method :: string
  m_confidence :: real
  m_line_number :: "int option"

text \<open>The entries of the configuration dictionary that the modelled code reads:
  \<open>config['min_similarity']\<close> and \<open>config.get('line_threshold', 10)\<close>.\<close>

record config =
  min_similarity :: real
  line_threshold :: "real option"

definition calculate_match_score :: "env \<Rightarrow> ustring \<Rightarrow> ustring \<Rightarrow> ustring \<Rightarrow> int \<Rightarrow> real" where
  "calculate_match_score E ref_text ref_clean extracted_text aya_number =
     (let basic_score = text_similarity E ref_text extracted_text Combined;
          extracted_verses = extract_verse_numbers E extracted_text;
          verse_bonus =
            (if list_ex (\<lambda>verse. int (vn_value verse) = aya_number) extracted_verses
             then 0.15 else 0);
          symbols_bonus =
            (case font_manager E of
               None \<Rightarrow> 0
             | Some is_uthmani_symbol \<Rightarrow>
                 let ref_symbols = set (filter is_uthmani_symbol ref_text);
                     ext_symbols = set (filter is_uthmani_symbol extracted_text)
                 in if ref_symbols \<noteq> {} \<and> ext_symbols \<noteq> {}
                    then let common = card (ref_symbols \<inter> ext_symbols);
                             total = card (ref_symbols \<union> ext_symbols)
                         in if total > 0 then (real common / real total) * 0.1 else 0
                    else 0)
      in min (basic_score + verse_bonus + symbols_bonus) 1)"

definition determine_extraction_method :: "ExtractedText \<Rightarrow> string" where
  "determine_extraction_method extracted =
     (if source extracted = ''svg''
      then (if (case map_of (metadata extracted) ''merged_from'' of
                  Some (MInt n) \<Rightarrow> n > 1 | _ \<Rightarrow> False)
            then ''svg_merged'' else ''svg_direct'')
      else ''pdf_text'')"

text \<open>The inner loop over \<open>enumerate(extracted_texts)\<close>. \<open>best_match\<close> and
  \<open>best_text_idx\<close> are set together, so they are kept as one optional pair.\<close>

fun best_text ::
  "env \<Rightarrow> config \<Rightarrow> aya_row \<Rightarrow> nat set \<Rightarrow> (nat \<times> ExtractedText) list
     \<Rightarrow> (nat \<times> ExtractedText) option \<times> real \<Rightarrow> (nat \<times> ExtractedText) option \<times> real" where
  "best_text E cfg row used [] best = best"
| "best_text E cfg row used ((text_idx, extracted) # rest) (best_match, best_score) =
     (if text_idx \<in> used then best_text E cfg row used rest (best_match, best_score)
      else let score = calculate_match_score E (aya_text row) (row_text_clean row)
                         (etext extracted) (row_aya_no row)
           in if score > best_score \<and> score \<ge> min_similarity cfg
              then best_text E cfg row used rest (Some (text_idx, extracted), score)
              else best_text E cfg row used rest (best_match, best_score))"

text \<open>The state of the outer loop: the matches so far, \<open>used_texts\<close>, and the two
  counters of \<open>self.stats\<close> that the loop increments.\<close>

record match_state =
  matches :: "MatchedAyah list"
  used_texts :: "nat set"
  stats_matched :: nat
  stats_unmatched :: nat

definition make_match :: "env \<Rightarrow> int \<Rightarrow> aya_row \<Rightarrow> ExtractedText \<Rightarrow> real \<Rightarrow> MatchedAyah" where
  "make_match E page_num row best_match best_score =
     \<lparr> m_page = page_num,
       sura_no = row_sura_no row,
       sura_name_ar = row_sura_name_ar row,
       sura_name_en = row_sura_name_en row,
       aya_no = row_aya_no row,
       text_uthmani = aya_text row,
       text_extracted = etext best_match,
       text_clean = clean_text E (etext best_match) False,
       similarity = best_score,
       m_bbox = bbox best_match,
       m_source = source best_match,
       extraction_method = determine_extraction_method best_match,
       m_confidence = confidence best_match * best_score,
       m_line_number = line_number best_match \<rparr>"

definition match_row ::
  "env \<Rightarrow> config \<Rightarrow> ExtractedText list \<Rightarrow> int \<Rightarrow> aya_row \<Rightarrow> match_state \<Rightarrow> match_state" where
  "match_row E cfg extracted_texts page_num row st =
     (case best_text E cfg row (used_texts st) (List.enumerate 0 extracted_texts) (None, 0) of
        (Some (best_text_idx, best_match), best_score) \<Rightarrow>
          st \<lparr> used_texts := insert best_text_idx (used_texts st),
               matches := matches st @ [make_match E page_num row best_match best_score],
               stats_matched := stats_matched st + 1 \<rparr>
      | (None, best_score) \<Rightarrow> st \<lparr> stats_unmatched := stats_unmatched st + 1 \<rparr>)"

text \<open>\<open>match_ayat_with_texts\<close>, as the state it ends in; the list it returns is the
  \<open>matches\<close> of that state. \<open>m0\<close> and \<open>u0\<close> are the counters before the call.\<close>

definition match_ayat_state ::
  "env \<Rightarrow> config \<Rightarrow> nat \<Rightarrow> nat \<Rightarrow> aya_row list \<Rightarrow> ExtractedText list \<Rightarrow> int \<Rightarrow> match_state" where
  "match_ayat_state E cfg m0 u0 ayat_df extracted_texts page_num =
     (let page_ayat = filter (\<lambda>row. row_page row = page_num) ayat_df;
          init = \<lparr> matches = [], used_texts = {}, stats_matched = m0, stats_unmatched = u0 \<rparr>
      in if page_ayat = [] then init
         else fold (match_row E cfg extracted_texts page_num) page_ayat init)"

definition match_ayat_with_texts ::
  "env \<Rightarrow> config \<Rightarrow> aya_row list \<Rightarrow> ExtractedText list \<Rightarrow> int \<Rightarrow> MatchedAyah list" where
  "match_ayat_with_texts E cfg ayat_df extracted_texts page_num =
     matches (match_ayat_state E cfg 0 0 ayat_df extracted_texts page_num)"

text \<open>A match as one step of the loop builds it: from the candidate at index \<open>i\<close>, not
  used so far, whose score reaches the threshold and is positive.\<close>

definition emitted_from ::
  "env \<Rightarrow> config \<Rightarrow> ExtractedText list \<Rightarrow> int \<Rightarrow> nat set \<Rightarrow> aya_row \<Rightarrow> nat \<Rightarrow> MatchedAyah \<Rightarrow> bool" where
  "emitted_from E cfg texts pn used row i m \<longleftrightarrow>
     i < length texts \<and> i \<notin> used \<and>
     (let s = calculate_match_score E (aya_text row) (row_text_clean row)
                (etext (texts ! i)) (row_aya_no row)
      in min_similarity cfg \<le> s \<and> 0 < s \<and> m = make_match E pn row (texts ! i) s)"

section \<open>Page text collection (\<open>extract_from_svg\<close>, \<open>extract_from_pdf\<close>)\<close>

text \<open>
  The exceptions that the bodies of the two collectors can raise. Both bodies stand in a
  \<open>try\<close> whose handler \<open>except Exception\<close> logs the error and returns the empty list.
\<close>

datatype error = ParseError | ValueError | KeyError

text \<open>An element of the parsed SVG tree (\<open>xml.etree.ElementTree.Element\<close>): tag,
  attributes, text, tail and children.\<close>

datatype svg_elem =
  Elem (tag: string) (attrib: "(string \<times> ustring) list") (elem_text: "ustring option")
       (elem_tail: "ustring option") (children: "svg_elem list")

text \<open>\<open>root.iter()\<close>: the element and its descendants in document order.\<close>

fun iter :: "svg_elem \<Rightarrow> svg_elem list" where
  "iter (Elem t a x y cs) = Elem t a x y cs # concat (map iter cs)"

text \<open>\<open>elem.get(key, default)\<close> for a string default.\<close>

definition get_attr :: "svg_elem \<Rightarrow> string \<Rightarrow> ustring \<Rightarrow> ustring" where
  "get_attr elem key dflt = (case map_of (attrib elem) key of Some v \<Rightarrow> v | None \<Rightarrow> dflt)"

text \<open>
  What the SVG collector takes from the libraries is a parameter:
  \<^item> \<open>parse_float\<close>: \<open>float(s)\<close> on a string, \<open>None\<close> when it raises \<open>ValueError\<close>;
  \<^item> \<open>re_matrix\<close>: the six groups of the first match of the pattern
    \<open>matrix\(([^,]+),([^,]+),([^,]+),([^,]+),([^,]+),([^)]+)\)\<close>, if there is one;
  \<^item> \<open>re_translate\<close>: the two groups of the first match of
    \<open>translate\(([^,]+)(?:,([^)]+))?\)\<close>, the second being optional.
\<close>

record svg_lib =
  parse_float :: "ustring \<Rightarrow> real option"
  re_matrix :: "ustring \<Rightarrow> ustring list option"
  re_translate :: "ustring \<Rightarrow> (ustring \<times> ustring option) option"

text \<open>\<open>float(elem.get(key, 0))\<close>: the attribute read as a float, \<open>0.0\<close> when it is absent.\<close>

definition float_attr :: "svg_lib \<Rightarrow> svg_elem \<Rightarrow> string \<Rightarrow> real option" where
  "float_attr L elem key =
     (case map_of (attrib elem) key of Some v \<Rightarrow> parse_float L v | None \<Rightarrow> Some 0)"

text \<open>\<open>_extract_svg_coordinates\<close>. Its own handler turns every exception of the
  conversions into the result \<open>None\<close>.\<close>

definition extract_svg_coordinates :: "svg_lib \<Rightarrow> ustring \<Rightarrow> svg_elem \<Rightarrow> bbox option" where
  "extract_svg_coordinates L transform elem =
     (let xy =
        (case re_matrix L transform of
           Some groups \<Rightarrow>
             (case map (parse_float L) groups of
                [Some a, Some b, Some c, Some d, Some e, Some f] \<Rightarrow> Some (e, f)
              | _ \<Rightarrow> None)
         | None \<Rightarrow>
             (case re_translate L transform of
                Some (g1, g2) \<Rightarrow>
                  (case parse_float L g1 of
                     None \<Rightarrow> None
                   | Some x \<Rightarrow>
                       (case (case g2 of None \<Rightarrow> Some 0
                                       | Some s \<Rightarrow> if s = [] then Some 0 else parse_float L s) of
                          None \<Rightarrow> None
                        | Some y \<Rightarrow> Some (x, y)))
              | None \<Rightarrow>
                  (case float_attr L elem ''x'' of
                     None \<Rightarrow> None
                   | Some x \<Rightarrow>
                       (case float_attr L elem ''y'' of
                          None \<Rightarrow> None
                        | Some y \<Rightarrow> Some (x, y)))))
      in case xy of
           None \<Rightarrow> None
         | Some (x, y) \<Rightarrow> let width = 100; height = 20 in Some (x, y - height, x + width, y))"

text \<open>
  \<open>_decode_html_entities\<close>: two passes of \<open>re.sub\<close>, the first over the references
  \<open>&#x\<close>\<^emph>\<open>hex\<close>\<open>;\<close> and the second over \<open>&#\<close>\<^emph>\<open>decimal\<close>\<open>;\<close>, each reference replaced by
  \<open>chr\<close> of its number. \<open>chr\<close> raises \<open>ValueError\<close> above \<open>0x10FFFF\<close>. A pass scans from the
  left; at a position where the prefix is followed by a non-empty run of digits and a
  semicolon it replaces the reference, elsewhere it keeps the character and moves on.
\<close>

definition hex_digit :: "nat \<Rightarrow> nat option" where
  "hex_digit c =
     (if 0x30 \<le> c \<and> c \<le> 0x39 then Some (c - 0x30)
      else if 0x61 \<le> c \<and> c \<le> 0x66 then Some (c - 0x61 + 10)
      else if 0x41 \<le> c \<and> c \<le> 0x46 then Some (c - 0x41 + 10)
      else None)"

definition dec_digit :: "nat \<Rightarrow> nat option" where
  "dec_digit c = (if 0x30 \<le> c \<and> c \<le> 0x39 then Some (c - 0x30) else None)"

text \<open>The reference at the head of a text, if there is one: its number and what follows
  the semicolon.\<close>

definition reference_at :: "ustring \<Rightarrow> (nat \<Rightarrow> nat option) \<Rightarrow> nat \<Rightarrow> ustring \<Rightarrow> (nat \<times> ustring) option" where
  "reference_at pre dv base t =
     (if take (length pre) t = pre
      then let rest = drop (length pre) t;
               ds = takeWhile (\<lambda>c. dv c \<noteq> None) rest;
               after = dropWhile (\<lambda>c. dv c \<noteq> None) rest
           in if ds \<noteq> [] \<and> after \<noteq> [] \<and> hd after = 0x3B
              then Some (fold (\<lambda>c acc. base * acc + (case dv c of Some d \<Rightarrow> d | None \<Rightarrow> 0)) ds 0,
                         tl after)
              else None
      else None)"

lemma reference_at_shorter:
  "reference_at pre dv base t = Some (n, r) \<Longrightarrow> length r < length t"
proof -
  assume a: "reference_at pre dv base t = Some (n, r)"
  define rest where "rest = drop (length pre) t"
  from a have "r = tl (dropWhile (\<lambda>c. dv c \<noteq> None) rest)"
    and "dropWhile (\<lambda>c. dv c \<noteq> None) rest \<noteq> []"
    by (auto simp: reference_at_def Let_def rest_def split: if_splits)
  then have "length r < length (dropWhile (\<lambda>c. dv c \<noteq> None) rest)" by simp
  also have "\<dots> \<le> length rest" by (rule length_dropWhile_le)
  also have "\<dots> \<le> length t" by (simp add: rest_def)
  finally show ?thesis .
qed

function decode_references ::
  "ustring \<Rightarrow> (nat \<Rightarrow> nat option) \<Rightarrow> nat \<Rightarrow> ustring \<Rightarrow> error + ustring" where
  "decode_references pre dv base [] = Inr []"
| "decode_references pre dv base (c # cs) =
     (case reference_at pre dv base (c # cs) of
        Some (n, r) \<Rightarrow>
          if n > 0x10FFFF then Inl ValueError
          else (case decode_references pre dv base r of
                  Inl e \<Rightarrow> Inl e
                | Inr out \<Rightarrow> Inr (n # out))
      | None \<Rightarrow>
          (case decode_references pre dv base cs of
             Inl e \<Rightarrow> Inl e
           | Inr out \<Rightarrow> Inr (c # out)))"
  by pat_completeness auto
termination
  by (relation "measure (\<lambda>(pre, dv, base, t). length t)")
     (auto dest: reference_at_shorter)

definition decode_html_entities :: "ustring \<Rightarrow> error + ustring" where
  "decode_html_entities t =
     (case decode_references [0x26, 0x23, 0x78] hex_digit 16 t of
        Inl e \<Rightarrow> Inl e
      | Inr t1 \<Rightarrow> decode_references [0x26, 0x23] dec_digit 10 t1)"

text \<open>\<open>_extract_text_element_content\<close>: the text of the element, of the \<open>tspan\<close>
  elements below it, and its tail.\<close>

definition extract_text_element_content :: "svg_elem \<Rightarrow> ustring" where
  "extract_text_element_content elem =
     (case elem_text elem of None \<Rightarrow> [] | Some t \<Rightarrow> t)
     @ concat (map (\<lambda>tspan. case elem_text tspan of None \<Rightarrow> [] | Some t \<Rightarrow> t)
                 (filter (\<lambda>e. tag e = ''{http://www.w3.org/2000/svg}tspan'') (tl (iter elem))))
     @ (case elem_tail elem of None \<Rightarrow> [] | Some t \<Rightarrow> t)"

text \<open>\<open>_estimate_text_bbox\<close>: with a font manager the width is a tenth of
  \<open>get_rendering_info(text)['estimated_width']\<close>, which is \<open>len(text) * 12\<close>.\<close>

definition estimate_text_bbox :: "env \<Rightarrow> ustring \<Rightarrow> real \<Rightarrow> real \<Rightarrow> bbox" where
  "estimate_text_bbox E t x y =
     (let estimated_width =
            (case font_manager E of
               Some _ \<Rightarrow> real (length t * 12) * 0.1
             | None \<Rightarrow> real (length t * 10));
          estimated_height = 20
      in (x, y - estimated_height, x + estimated_width, y))"

text \<open>The body of the loop of \<open>extract_from_svg\<close> for one element: the fragments it
  appends, or the exception it raises. \<open>pg\<close> is the page number that
  \<open>_get_page_from_filename\<close> reads in the file name.\<close>

definition svg_element_texts ::
  "env \<Rightarrow> svg_lib \<Rightarrow> int \<Rightarrow> svg_elem \<Rightarrow> error + ExtractedText list" where
  "svg_element_texts E L pg elem =
     (if suffix ''use'' (tag elem) \<and> map_of (attrib elem) ''data-text'' \<noteq> None
      then let text_content = get_attr elem ''data-text'' [];
               transform = get_attr elem ''transform'' []
           in if strip text_content \<noteq> []
              then (case extract_svg_coordinates L transform elem of
                      None \<Rightarrow> Inr []
                    | Some coords \<Rightarrow>
                        (case decode_html_entities text_content of
                           Inl e \<Rightarrow> Inl e
                         | Inr decoded \<Rightarrow>
                             Inr [\<lparr> etext = decoded, bbox = coords, page = pg, source = ''svg'',
                                    line_number = None, confidence = 1,
                                    metadata =
                                      [(''transform'', MStr transform),
                                       (''element_id'', MStr (get_attr elem ''id'' [])),
                                       (''href'', MStr (get_attr elem
                                          ''{http://www.w3.org/1999/xlink}href'' []))] \<rparr>]))
              else Inr []
      else if suffix ''text'' (tag elem)
      then let text_content = extract_text_element_content elem
           in if strip text_content \<noteq> []
              then (case float_attr L elem ''x'' of
                      None \<Rightarrow> Inl ValueError
                    | Some x \<Rightarrow>
                        (case float_attr L elem ''y'' of
                           None \<Rightarrow> Inl ValueError
                         | Some y \<Rightarrow>
                             Inr [\<lparr> etext = text_content,
                                    bbox = estimate_text_bbox E text_content x y,
                                    page = pg, source = ''svg'',
                                    line_number = None, confidence = 1,
                                    metadata =
                                      [(''element_type'', MName ''text''),
                                       (''font_size'', MStr (get_attr elem ''font-size'' [])),
                                       (''font_family'', MStr (get_attr elem ''font-family'' []))] \<rparr>]))
              else Inr []
      else Inr [])"

text \<open>The loop over \<open>root.iter()\<close>: it stops at the first exception.\<close>

fun collect_svg :: "env \<Rightarrow> svg_lib \<Rightarrow> int \<Rightarrow> svg_elem list \<Rightarrow> error + ExtractedText list" where
  "collect_svg E L pg [] = Inr []"
| "collect_svg E L pg (elem # rest) =
     (case svg_element_texts E L pg elem of
        Inl e \<Rightarrow> Inl e
      | Inr ts \<Rightarrow>
          (case collect_svg E L pg rest of
             Inl e \<Rightarrow> Inl e
           | Inr others \<Rightarrow> Inr (ts @ others)))"

text \<open>The coordinates of a box: \<open>bbox[0]\<close> to \<open>bbox[3]\<close>.\<close>

definition bbox0 :: "bbox \<Rightarrow> real" where "bbox0 b = (case b of (a, _, _, _) \<Rightarrow> a)"
definition bbox1 :: "bbox \<Rightarrow> real" where "bbox1 b = (case b of (_, a, _, _) \<Rightarrow> a)"
definition bbox2 :: "bbox \<Rightarrow> real" where "bbox2 b = (case b of (_, _, a, _) \<Rightarrow> a)"
definition bbox3 :: "bbox \<Rightarrow> real" where "bbox3 b = (case b of (_, _, _, a) \<Rightarrow> a)"

text \<open>\<open>min\<close> and \<open>max\<close> over the values of a line, which is never empty where they are
  taken.\<close>

definition minimum :: "real list \<Rightarrow> real" where
  "minimum xs = fold min (tl xs) (hd xs)"

definition maximum :: "real list \<Rightarrow> real" where
  "maximum xs = fold max (tl xs) (hd xs)"

text \<open>\<open>_merge_line_texts\<close>: the fragments of a line from right to left (a stable sort by
  descending left edge), their texts joined and their boxes united.\<close>

definition merge_line_texts :: "ExtractedText list \<Rightarrow> ExtractedText" where
  "merge_line_texts line_texts0 =
     (let line_texts = sort_key (\<lambda>t. - bbox0 (bbox t)) line_texts0
      in \<lparr> etext = concat (map etext line_texts),
           bbox = (minimum (map (\<lambda>t. bbox0 (bbox t)) line_texts),
                   minimum (map (\<lambda>t. bbox1 (bbox t)) line_texts),
                   maximum (map (\<lambda>t. bbox2 (bbox t)) line_texts),
                   maximum (map (\<lambda>t. bbox3 (bbox t)) line_texts)),
           page = page (hd line_texts),
           source = ''svg'',
           line_number = None,
           confidence = minimum (map confidence line_texts),
           metadata = [(''merged_from'', MInt (int (length line_texts))),
                       (''original_texts'', MStrs (map etext line_texts))] \<rparr>)"

text \<open>The loop of \<open>_process_svg_texts\<close> over the sorted fragments, with \<open>current_line\<close>,
  \<open>current_y\<close> and \<open>lines\<close>; at the end the last line is added.\<close>

fun group_lines ::
  "real \<Rightarrow> ExtractedText list \<Rightarrow> ExtractedText list \<Rightarrow> real option \<Rightarrow> ExtractedText list
     \<Rightarrow> ExtractedText list" where
  "group_lines threshold [] current_line current_y lines =
     (if current_line \<noteq> [] then lines @ [merge_line_texts current_line] else lines)"
| "group_lines threshold (t # rest) current_line current_y lines =
     (let y_center = (bbox1 (bbox t) + bbox3 (bbox t)) / 2
      in case current_y of
           None \<Rightarrow> group_lines threshold rest [t] (Some y_center) lines
         | Some y \<Rightarrow>
             if \<bar>y_center - y\<bar> \<le> threshold
             then group_lines threshold rest (current_line @ [t]) current_y lines
             else group_lines threshold rest [t] (Some y_center)
                    (if current_line \<noteq> [] then lines @ [merge_line_texts current_line]
                     else lines))"

definition process_svg_texts :: "config \<Rightarrow> ExtractedText list \<Rightarrow> ExtractedText list" where
  "process_svg_texts cfg texts =
     (if texts = [] then []
      else let sorted_texts = sort_key (\<lambda>t. (- bbox1 (bbox t), bbox0 (bbox t))) texts;
               threshold = (case line_threshold cfg of Some v \<Rightarrow> v | None \<Rightarrow> 10)
           in group_lines threshold sorted_texts [] None [])"

text \<open>\<open>extract_from_svg\<close>. The document is \<open>None\<close> when \<open>ET.parse\<close> raises: a file that
  cannot be read or is not well-formed XML.\<close>

definition extract_from_svg ::
  "env \<Rightarrow> svg_lib \<Rightarrow> config \<Rightarrow> int \<Rightarrow> svg_elem option \<Rightarrow> ExtractedText list" where
  "extract_from_svg E L cfg pg doc =
     (case doc of
        None \<Rightarrow> []
      | Some tree_root \<Rightarrow>
          (case collect_svg E L pg (iter tree_root) of
             Inl e \<Rightarrow> []
           | Inr texts \<Rightarrow> process_svg_texts cfg texts))"

text \<open>
  The PDF side: what \<open>page.get_text("dict")\<close> returns, as far as \<open>extract_from_pdf\<close> reads
  it. A span has its text, its box and the optional entries \<open>font\<close>, \<open>size\<close>, \<open>flags\<close> and
  \<open>color\<close>. The code reads \<open>line["line_no"]\<close>; a line dictionary without that key makes
  the lookup raise \<open>KeyError\<close>. A document that \<open>fitz.open\<close> cannot open, and a page whose
  text cannot be read, are values of their own.
\<close>

record pdf_span =
  span_text :: ustring
  span_bbox :: bbox
  span_info :: metadata_dict

record pdf_line =
  spans :: "pdf_span list"
  line_no :: "int option"

record pdf_block =
  block_type :: int
  block_lines :: "pdf_line list"

datatype pdf_page = Page_unreadable | Page_dict "pdf_block list"

datatype pdf_doc = Unopenable | Document "pdf_page list"

text \<open>The loop over the spans of a line, with \<open>line_text\<close> and \<open>line_bbox\<close>.\<close>

fun collect_spans :: "pdf_span list \<Rightarrow> ustring \<times> bbox option \<Rightarrow> ustring \<times> bbox option" where
  "collect_spans [] acc = acc"
| "collect_spans (the_span # rest) (line_text, line_bbox) =
     (if strip (span_text the_span) \<noteq> []
      then collect_spans rest
             (line_text @ span_text the_span,
              (case line_bbox of
                 None \<Rightarrow> Some (span_bbox the_span)
               | Some b \<Rightarrow>
                   Some (min (bbox0 b) (bbox0 (span_bbox the_span)), min (bbox1 b) (bbox1 (span_bbox the_span)),
                         max (bbox2 b) (bbox2 (span_bbox the_span)), max (bbox3 b) (bbox3 (span_bbox the_span)))))
      else collect_spans rest (line_text, line_bbox))"

text \<open>\<open>span.get(key, default)\<close> on the last span of the line.\<close>

definition span_get :: "pdf_span \<Rightarrow> string \<Rightarrow> meta_value \<Rightarrow> meta_value" where
  "span_get the_span key dflt = (case map_of (span_info the_span) key of Some v \<Rightarrow> v | None \<Rightarrow> dflt)"

definition pdf_line_texts :: "int \<Rightarrow> pdf_line \<Rightarrow> error + ExtractedText list" where
  "pdf_line_texts page_num line =
     (case collect_spans (spans line) ([], None) of
        (line_text, line_bbox) \<Rightarrow>
          (case line_bbox of
             None \<Rightarrow> Inr []
           | Some b \<Rightarrow>
               if strip line_text \<noteq> []
               then (case line_no line of
                       None \<Rightarrow> Inl KeyError
                     | Some n \<Rightarrow>
                         Inr [\<lparr> etext = strip line_text, bbox = b, page = page_num + 1,
                                source = ''pdf'', line_number = Some n, confidence = 1,
                                metadata =
                                  [(''font'', span_get (last (spans line)) ''font'' (MStr [])),
                                   (''size'', span_get (last (spans line)) ''size'' (MInt 0)),
                                   (''flags'', span_get (last (spans line)) ''flags'' (MInt 0)),
                                   (''color'', span_get (last (spans line)) ''color'' (MInt 0))] \<rparr>])
               else Inr []))"

fun collect_pdf_lines :: "int \<Rightarrow> pdf_line list \<Rightarrow> error + ExtractedText list" where
  "collect_pdf_lines page_num [] = Inr []"
| "collect_pdf_lines page_num (line # rest) =
     (case pdf_line_texts page_num line of
        Inl e \<Rightarrow> Inl e
      | Inr ts \<Rightarrow>
          (case collect_pdf_lines page_num rest of
             Inl e \<Rightarrow> Inl e
           | Inr others \<Rightarrow> Inr (ts @ others)))"

fun collect_pdf_blocks :: "int \<Rightarrow> pdf_block list \<Rightarrow> error + ExtractedText list" where
  "collect_pdf_blocks page_num [] = Inr []"
| "collect_pdf_blocks page_num (block # rest) =
     (case (if block_type block = 0 then collect_pdf_lines page_num (block_lines block)
            else Inr []) of
        Inl e \<Rightarrow> Inl e
      | Inr ts \<Rightarrow>
          (case collect_pdf_blocks page_num rest of
             Inl e \<Rightarrow> Inl e
           | Inr others \<Rightarrow> Inr (ts @ others)))"

definition extract_from_pdf :: "pdf_doc \<Rightarrow> int \<Rightarrow> ExtractedText list" where
  "extract_from_pdf doc page_num =
     (case doc of
        Unopenable \<Rightarrow> []
      | Document pages \<Rightarrow>
          if page_num < 0 \<or> page_num \<ge> int (length pages) then []
          else (case pages ! nat page_num of
                  Page_unreadable \<Rightarrow> []
                | Page_dict blocks \<Rightarrow>
                    (case collect_pdf_blocks page_num blocks of
                       Inl e \<Rightarrow> []
                     | Inr texts \<Rightarrow> texts)))"

section \<open>Concrete inputs\<close>

text \<open>Two environments for running the model on examples. Normalisation \<open>NFKC\<close> leaves
  the texts of the examples (the letter beh U+0628, the fatha U+064E, the digit one U+0661,
  the space) as they are; the decimal digits are the ASCII, the Arabic-Indic and the
  extended Arabic-Indic ones. The first environment has no font manager; in the second
  the font's symbols are the basic diacritics U+064B-U+0652.\<close>

definition example_decimal_value :: "nat \<Rightarrow> nat option" where
  "example_decimal_value c =
     (if 0x30 \<le> c \<and> c \<le> 0x39 then Some (c - 0x30)
      else if 0x0660 \<le> c \<and> c \<le> 0x0669 then Some (c - 0x0660)
      else if 0x06F0 \<le> c \<and> c \<le> 0x06F9 then Some (c - 0x06F0)
      else None)"

definition example_env :: env where
  "example_env =
     \<lparr> nfkc = (\<lambda>t. t), decimal_value = example_decimal_value, font_manager = None \<rparr>"

definition example_font_env :: env where
  "example_font_env =
     \<lparr> nfkc = (\<lambda>t. t), decimal_value = example_decimal_value,
       font_manager = Some (\<lambda>c. 0x064B \<le> c \<and> c \<le> 0x0652) \<rparr>"



text \<open>A page for the matcher: two candidate fragments, the first holding only the digit
  one and the second the letter beh, and a verse table with two verses on page 1, both with
  the text beh, and one verse on page 2. The threshold is \<open>0.5\<close>.\<close>

definition digit_fragment :: ExtractedText where
  "digit_fragment =
     \<lparr> etext = [0x0661], bbox = (0, 0, 10, 10), page = 1, source = ''pdf'',
       line_number = Some 0, confidence = 1, metadata = [] \<rparr>"

definition beh_fragment :: ExtractedText where
  "beh_fragment =
     \<lparr> etext = [0x0628], bbox = (0, 20, 10, 30), page = 1, source = ''svg'',
       line_number = None, confidence = 1 / 2, metadata = [] \<rparr>"

definition example_texts :: "ExtractedText list" where
  "example_texts = [digit_fragment, beh_fragment]"

definition example_row :: "int \<Rightarrow> int \<Rightarrow> aya_row" where
  "example_row pg n =
     \<lparr> row_page = pg, row_sura_no = 1, row_sura_name_ar = [], row_sura_name_en = [],
       row_aya_no = n, aya_text = [0x0628], row_text_clean = [0x0628] \<rparr>"

definition example_ayat :: "aya_row list" where
  "example_ayat = [example_row 1 2, example_row 2 7, example_row 1 3]"

definition example_config :: config where
  "example_config = \<lparr> min_similarity = 1 / 2, line_threshold = None \<rparr>"

text \<open>Two page sources that cannot be read to the end. In the SVG tree the \<open>text\<close> element
  has the attribute \<open>x="abc"\<close>, which is not a number (of the strings of this example
  \<open>float\<close> reads only \<open>"0"\<close>); in the PDF page the only line has no \<open>line_no\<close>.\<close>

definition example_svg_lib :: svg_lib where
  "example_svg_lib =
     \<lparr> parse_float = (\<lambda>s. if s = [0x30] then Some 0 else None),
       re_matrix = (\<lambda>s. None),
       re_translate = (\<lambda>s. None) \<rparr>"

definition broken_text_element :: svg_elem where
  "broken_text_element =
     Elem ''{http://www.w3.org/2000/svg}text'' [(''x'', [0x61, 0x62, 0x63])]
       (Some [0x0628]) None []"

definition broken_svg :: svg_elem where
  "broken_svg = Elem ''{http://www.w3.org/2000/svg}svg'' [] None None [broken_text_element]"

definition broken_pdf_page :: "pdf_block list" where
  "broken_pdf_page =
     [\<lparr> block_type = 0,
        block_lines =
          [\<lparr> spans = [\<lparr> span_text = [0x0628], span_bbox = (0, 0, 10, 10), span_info = [] \<rparr>],
             line_no = None \<rparr>] \<rparr>]"

section \<open>Source reconciliation (\<open>_merge_ai_results\<close>)\<close>

text \<open>\<open>_calculate_bbox_overlap\<close>: the literal \<open>0\<close> of \<open>max(0, ...)\<close> and the float
  \<open>0.0\<close> are the real number zero.\<close>

fun calculate_bbox_overlap :: "bbox \<Rightarrow> bbox \<Rightarrow> real" where
  "calculate_bbox_overlap (x1_min, y1_min, x1_max, y1_max) (x2_min, y2_min, x2_max, y2_max) =
     (let x_overlap = max 0 (min x1_max x2_max - max x1_min x2_min);
          y_overlap = max 0 (min y1_max y2_max - max y1_min y2_min);
          intersection = x_overlap * y_overlap;
          area1 = (x1_max - x1_min) * (y1_max - y1_min);
          area2 = (x2_max - x2_min) * (y2_max - y2_min);
          union = area1 + area2 - intersection
      in if union > 0 then intersection / union else 0)"

text \<open>The inner loop of \<open>_merge_ai_results\<close> over \<open>enumerate(ai_analysis.text_regions)\<close>,
  carrying \<open>best_match\<close> and \<open>best_overlap\<close>.\<close>

fun best_region ::
  "bbox \<Rightarrow> nat set \<Rightarrow> (nat \<times> TextRegion) list \<Rightarrow> (nat \<times> TextRegion) option \<Rightarrow> real
     \<Rightarrow> (nat \<times> TextRegion) option" where
  "best_region b used [] best_match best_overlap = best_match"
| "best_region b used ((idx, ai_region) # rest) best_match best_overlap =
     (if idx \<in> used then best_region b used rest best_match best_overlap
      else let overlap = calculate_bbox_overlap b (r_bbox ai_region)
           in if overlap > best_overlap \<and> overlap > 0.5
              then best_region b used rest (Some (idx, ai_region)) overlap
              else best_region b used rest best_match best_overlap)"

definition enhanced_text :: "ExtractedText \<Rightarrow> TextRegion \<Rightarrow> ExtractedText" where
  "enhanced_text trad_text ai_region =
     \<lparr> etext = etext trad_text,
       bbox = r_bbox ai_region,
       page = page trad_text,
       source = ''svg_ai_enhanced'',
       line_number = None,
       confidence = max (confidence trad_text) (r_confidence ai_region),
       metadata =
         dict_set ''ai_confidence'' (MReal (r_confidence ai_region))
           (dict_set ''ai_font_type'' (MName (font_type ai_region))
             (dict_set ''ai_text_type'' (MName (text_type ai_region))
               (metadata trad_text))) \<rparr>"

text \<open>The first loop: one step per traditional text; the state is \<open>merged\<close> and
  \<open>used_ai_regions\<close>.\<close>

fun merge_loop ::
  "TextRegion list \<Rightarrow> ExtractedText list \<Rightarrow> ExtractedText list \<times> nat set
     \<Rightarrow> ExtractedText list \<times> nat set" where
  "merge_loop regions [] (merged, used) = (merged, used)"
| "merge_loop regions (trad_text # rest) (merged, used) =
     (case best_region (bbox trad_text) used (List.enumerate 0 regions) None 0 of
        Some (idx, ai_region) \<Rightarrow>
          merge_loop regions rest (merged @ [enhanced_text trad_text ai_region], insert idx used)
      | None \<Rightarrow> merge_loop regions rest (merged @ [trad_text], used))"

definition ai_only_text :: "int \<Rightarrow> TextRegion \<Rightarrow> ExtractedText" where
  "ai_only_text pn ai_region =
     \<lparr> etext = (case r_text ai_region of None \<Rightarrow> [] | Some t \<Rightarrow> t),
       bbox = r_bbox ai_region,
       page = pn,
       source = ''ai_only'',
       line_number = None,
       confidence = r_confidence ai_region,
       metadata = [(''ai_text_type'', MName (text_type ai_region)),
                   (''ai_font_type'', MName (font_type ai_region))] \<rparr>"

text \<open>The second loop: AI regions that matched no traditional text and are verses.\<close>

fun append_ai_only ::
  "int \<Rightarrow> nat set \<Rightarrow> (nat \<times> TextRegion) list \<Rightarrow> ExtractedText list \<Rightarrow> ExtractedText list" where
  "append_ai_only pn used [] merged = merged"
| "append_ai_only pn used ((idx, ai_region) # rest) merged =
     (if idx \<notin> used \<and> text_type ai_region = ''ayah''
      then append_ai_only pn used rest (merged @ [ai_only_text pn ai_region])
      else append_ai_only pn used rest merged)"

definition merge_ai_results :: "ExtractedText list \<Rightarrow> PageAnalysis \<Rightarrow> ExtractedText list" where
  "merge_ai_results traditional_texts ai_analysis =
     (case merge_loop (text_regions ai_analysis) traditional_texts ([], {}) of
        (merged, used) \<Rightarrow>
          append_ai_only (page_number ai_analysis) used
            (List.enumerate 0 (text_regions ai_analysis)) merged)"





section \<open>Properties of the normaliser\<close>

lemma in_ranges:
  "c \<in> set (concat (map (\<lambda>(start, end). [start ..< end + 1]) rs))
     \<longleftrightarrow> (\<exists>(s, e) \<in> set rs. s \<le> c \<and> c \<le> e)"
  by (induction rs) auto

lemma in_diacritic_chars:
  "c \<in> set diacritic_chars \<longleftrightarrow>
     (0x064B \<le> c \<and> c \<le> 0x0652) \<or> (0x0653 \<le> c \<and> c \<le> 0x065F) \<or>
     (0x0670 \<le> c \<and> c \<le> 0x0671) \<or> (0x06D6 \<le> c \<and> c \<le> 0x06ED) \<or>
     (0x08D3 \<le> c \<and> c \<le> 0x08FF) \<or> (0xFBB2 \<le> c \<and> c \<le> 0xFBC1)"
  unfolding diacritic_chars_def in_ranges DIACRITIC_RANGES_def by simp

lemma set_strip: "set (strip t) \<subseteq> set t"
proof -
  have "set (strip t) \<subseteq> set (dropWhile is_space t)"
    unfolding strip_def using set_dropWhileD [of _ is_space "rev (dropWhile is_space t)"] by auto
  also have "\<dots> \<subseteq> set t" using set_dropWhileD [of _ is_space t] by auto
  finally show ?thesis .
qed

lemma set_diacritic_sub: "set (diacritic_sub t) \<inter> set diacritic_chars = {}"
  by (auto simp: diacritic_sub_def)

lemma normalize_full_no_diacritic:
  "set (normalize_text E t Full) \<inter> set diacritic_chars = {}"
proof (cases "t = []")
  case True
  then show ?thesis by (simp add: normalize_text_def)
next
  case False
  define t1 where
    "t1 = fold (\<lambda>(old, new) acc. str_replace old new acc) all_normalizations (nfkc E t)"
  have "normalize_text E t Full = strip (diacritic_sub t1)"
    using False by (simp add: normalize_text_def Let_def t1_def)
  then show ?thesis
    using set_strip [of "diacritic_sub t1"] set_diacritic_sub [of t1] by auto
qed

text \<open>The keys of the merged table are the keys of the six categories: a text that has
  none of them passes the substitution pass unchanged.\<close>

lemma keys_dict_set: "fst ` set (dict_set k v d) = insert k (fst ` set d)"
proof (induction d)
  case Nil
  show ?case by simp
next
  case (Cons a d)
  then show ?case by (cases a) (simp add: insert_commute)
qed

lemma keys_dict_update: "fst ` set (dict_update d es) = fst ` set d \<union> fst ` set es"
  unfolding dict_update_def
  by (induction es arbitrary: d) (simp_all add: keys_dict_set split_beta)

lemma normalization_keys:
  "fst ` set all_normalizations =
     fst ` set (alef_variants @ yaa_variants @ taa_marbuta @ waw_variants @ hamza_variants
                  @ letter_forms)"
  by (simp add: all_normalizations_def NORMALIZATION_RULES_def keys_dict_update image_Un Un_assoc)

lemma str_replace_absent: "old \<notin> set t \<Longrightarrow> str_replace old new t = t"
  unfolding str_replace_def by (induction t) auto

lemma replace_all_absent:
  "set t \<inter> fst ` set tbl = {} \<Longrightarrow> fold (\<lambda>(old, new) acc. str_replace old new acc) tbl t = t"
  by (induction tbl) (auto simp: str_replace_absent)

lemma not_key_beh: "0x0628 \<notin> fst ` set all_normalizations"
  unfolding normalization_keys
  by (simp add: alef_variants_def yaa_variants_def taa_marbuta_def waw_variants_def
        hamza_variants_def letter_forms_def)

lemma not_key_fatha: "0x064E \<notin> fst ` set all_normalizations"
  unfolding normalization_keys
  by (simp add: alef_variants_def yaa_variants_def taa_marbuta_def waw_variants_def
        hamza_variants_def letter_forms_def)

lemma not_key_one: "0x0661 \<notin> fst ` set all_normalizations"
  unfolding normalization_keys
  by (simp add: alef_variants_def yaa_variants_def taa_marbuta_def waw_variants_def
        hamza_variants_def letter_forms_def)

lemma normalize_full_example:
  "normalize_text example_env [0x0628, 0x064E] Full = [0x0628]"
proof -
  have "fold (\<lambda>(old, new) acc. str_replace old new acc) all_normalizations [0x0628, 0x064E]
          = [0x0628, 0x064E]"
    using not_key_beh not_key_fatha by (intro replace_all_absent) simp
  then show ?thesis
    by (simp add: normalize_text_def example_env_def diacritic_sub_def in_diacritic_chars
          strip_def is_space_def)
qed

text \<open>
  Claim C8. Whatever the text and whatever Unicode normalisation does to it, the result of
  \<open>normalize_text\<close> at level \<open>full\<close> has no character of the six diacritic ranges
  U+064B-U+0652, U+0653-U+065F, U+0670-U+0671, U+06D6-U+06ED, U+08D3-U+08FF and
  U+FBB2-U+FBC1: the diacritics are deleted after the substitution pass, and only
  whitespace is trimmed afterwards.
\<close>

theorem normalize_full_has_no_diacritics:
  "\<forall>c \<in> set (normalize_text E t Full).
     \<not> ((0x064B \<le> c \<and> c \<le> 0x0652) \<or> (0x0653 \<le> c \<and> c \<le> 0x065F) \<or>
        (0x0670 \<le> c \<and> c \<le> 0x0671) \<or> (0x06D6 \<le> c \<and> c \<le> 0x06ED) \<or>
        (0x08D3 \<le> c \<and> c \<le> 0x08FF) \<or> (0xFBB2 \<le> c \<and> c \<le> 0xFBC1))"
proof
  fix c
  assume "c \<in> set (normalize_text E t Full)"
  with normalize_full_no_diacritic [of E t] have "c \<notin> set diacritic_chars" by auto
  then show "\<not> ((0x064B \<le> c \<and> c \<le> 0x0652) \<or> (0x0653 \<le> c \<and> c \<le> 0x065F) \<or>
        (0x0670 \<le> c \<and> c \<le> 0x0671) \<or> (0x06D6 \<le> c \<and> c \<le> 0x06ED) \<or>
        (0x08D3 \<le> c \<and> c \<le> 0x08FF) \<or> (0xFBB2 \<le> c \<and> c \<le> 0xFBC1))"
    unfolding in_diacritic_chars .
qed

theorem normalize_full_has_no_diacritics_witness:
  "0x0628 \<in> set (normalize_text example_env [0x0628, 0x064E] Full) \<and>
   \<not> ((0x064B \<le> (0x0628::nat) \<and> (0x0628::nat) \<le> 0x0652) \<or>
      (0x0653 \<le> (0x0628::nat) \<and> (0x0628::nat) \<le> 0x065F) \<or>
      (0x0670 \<le> (0x0628::nat) \<and> (0x0628::nat) \<le> 0x0671) \<or>
      (0x06D6 \<le> (0x0628::nat) \<and> (0x0628::nat) \<le> 0x06ED) \<or>
      (0x08D3 \<le> (0x0628::nat) \<and> (0x0628::nat) \<le> 0x08FF) \<or>
      (0xFBB2 \<le> (0x0628::nat) \<and> (0x0628::nat) \<le> 0xFBC1))"
proof -
  have m: "0x0628 \<in> set (normalize_text example_env [0x0628, 0x064E] Full)"
    by (simp add: normalize_full_example)
  from normalize_full_has_no_diacritics [of example_env "[0x0628, 0x064E]", rule_format, OF m] m
  show ?thesis by (rule_tac conjI)
qed

section \<open>Properties of the scorers\<close>

lemma matching_size_le:
  "matching_size P a b \<le> length a \<and> matching_size P a b \<le> length b"
proof (induction P a b rule: matching_size.induct)
  case (1 P a b)
  obtain i j k where f: "find_longest_match P a b = (i, j, k)"
    by (cases "find_longest_match P a b") auto
  from find_longest_match_ok [of a b P] f
  have ok: "i + k \<le> length a" "j + k \<le> length b" by (simp_all add: block_ok_def)
  show ?case
  proof (cases "k = 0")
    case True
    then show ?thesis by (simp add: matching_size.simps [of P a b] f)
  next
    case False
    define l where "l = (if 0 < i \<and> 0 < j then matching_size P (take i a) (take j b) else 0)"
    define r where "r = (if i + k < length a \<and> j + k < length b
                         then matching_size P (drop (i + k) a) (drop (j + k) b) else 0)"
    have l: "l \<le> i \<and> l \<le> j"
      using "1.IH"(1) [OF f [symmetric] refl False] ok by (auto simp: l_def)
    have r: "r \<le> length a - (i + k) \<and> r \<le> length b - (j + k)"
      using "1.IH"(2) [OF f [symmetric] refl False] by (auto simp: r_def)
    have "matching_size P a b = l + k + r"
      using False by (simp add: matching_size.simps [of P a b] f l_def r_def)
    then show ?thesis using l r ok by linarith
  qed
qed

lemma sequence_matcher_ratio_bounds:
  "0 \<le> sequence_matcher_ratio a b \<and> sequence_matcher_ratio a b \<le> 1"
proof -
  have "2 * matching_size (bpopular b) a b \<le> length a + length b"
    using matching_size_le [of "bpopular b" a b] by linarith
  then have "2 * real (matching_size (bpopular b) a b) \<le> real (length a + length b)"
    by (metis of_nat_le_iff of_nat_mult of_nat_numeral)
  then show ?thesis
    by (auto simp: sequence_matcher_ratio_def Let_def divide_le_eq_1)
qed

lemma interesting_prefix_self:
  "interesting_prefix P xs ys \<le> interesting_prefix P xs xs \<and>
   interesting_prefix P xs ys \<le> interesting_prefix P ys ys"
  by (induction P xs ys rule: interesting_prefix.induct) auto

lemma common_prefix_self: "common_prefix xs xs = length xs"
  by (induction xs) auto

text \<open>A sequence compared with itself: the main loop of \<open>find_longest_match\<close> keeps a
  block on the diagonal.\<close>

lemma longest_row_diag:
  assumes "diag_upto P c i best" "m \<le> length c"
  shows "diag_upto P c (if i < m then Suc i else i)
           (fold (\<lambda>j best'. longest_step P c c i j best') [0 ..< m] best)"
  using assms(2)
proof (induction m)
  case 0
  then show ?case using assms(1) by simp
next
  case (Suc m)
  define r where "r = fold (\<lambda>j best'. longest_step P c c i j best') [0 ..< m] best"
  obtain bi bj bk where r: "r = (bi, bj, bk)" by (cases r) auto
  from Suc have inv: "diag_upto P c (if i < m then Suc i else i) r" by (simp add: r_def)
  have res: "fold (\<lambda>j best'. longest_step P c c i j best') [0 ..< Suc m] best
               = longest_step P c c i m r"
    by (simp add: r_def)
  let ?k = "interesting_prefix P (drop i c) (drop m c)"
  consider (lt) "m < i" | (eq) "m = i" | (gt) "i < m" by linarith
  then show ?case
  proof cases
    case lt
    have "?k \<le> interesting_prefix P (drop m c) (drop m c)"
      using interesting_prefix_self [of P "drop i c" "drop m c"] by simp
    also have "\<dots> \<le> bk" using inv lt by (simp add: diag_upto_def r)
    finally have "longest_step P c c i m r = r" by (simp add: longest_step_def r)
    with inv lt show ?thesis unfolding res by simp
  next
    case eq
    with inv show ?thesis unfolding res
      by (auto simp: longest_step_def r diag_upto_def Let_def less_Suc_eq)
  next
    case gt
    have "?k \<le> interesting_prefix P (drop i c) (drop i c)"
      using interesting_prefix_self [of P "drop i c" "drop m c"] by simp
    also have "\<dots> \<le> bk" using inv gt by (simp add: diag_upto_def r)
    finally have "longest_step P c c i m r = r" by (simp add: longest_step_def r)
    with inv gt show ?thesis unfolding res by simp
  qed
qed

lemma longest_rows_diag:
  assumes "n \<le> length c"
  shows "diag_upto P c n
     (fold (\<lambda>i best. fold (\<lambda>j best'. longest_step P c c i j best') [0 ..< length c] best)
        [0 ..< n] (0, 0, 0))"
  using assms
proof (induction n)
  case 0
  show ?case by (simp add: diag_upto_def)
next
  case (Suc n)
  then have "diag_upto P c n
     (fold (\<lambda>i best. fold (\<lambda>j best'. longest_step P c c i j best') [0 ..< length c] best)
        [0 ..< n] (0, 0, 0))" by simp
  from longest_row_diag [OF this, of "length c"] Suc.prems show ?case by simp
qed

lemma find_longest_match_self:
  "find_longest_match P c c = (0, 0, length c)"
proof -
  obtain bi bj bk where l: "longest_interesting P c c = (bi, bj, bk)"
    by (cases "longest_interesting P c c") auto
  have "diag_upto P c (length c) (longest_interesting P c c)"
    unfolding longest_interesting_def by (rule longest_rows_diag) simp
  with l have d: "bi = bj" by (simp add: diag_upto_def)
  from longest_interesting_ok [of c c P] l have ok: "bi + bk \<le> length c"
    by (simp add: block_ok_def)
  then show ?thesis
    by (simp add: find_longest_match_def l d Let_def common_prefix_self min_absorb2)
qed

lemma matching_size_self: "matching_size P c c = length c"
  by (simp add: matching_size.simps [of P c c] find_longest_match_self)

lemma sequence_matcher_ratio_self: "c \<noteq> [] \<Longrightarrow> sequence_matcher_ratio c c = 1"
  by (simp add: sequence_matcher_ratio_def matching_size_self)

lemma levenshtein_distance_self: "levenshtein_distance xs xs = 0"
  by (induction xs) auto

lemma levenshtein_distance_le:
  "levenshtein_distance xs ys \<le> max (length xs) (length ys)"
  by (induction xs ys rule: levenshtein_distance.induct) auto

lemma levenshtein_similarity_bounds:
  "0 \<le> levenshtein_similarity a b \<and> levenshtein_similarity a b \<le> 1"
proof -
  have "real (levenshtein_distance a b) \<le> real (max (length a) (length b))"
    using levenshtein_distance_le [of a b] by (simp only: of_nat_le_iff)
  then show ?thesis
    by (auto simp: levenshtein_similarity_def Let_def divide_le_eq_1)
qed

lemma levenshtein_similarity_self: "c \<noteq> [] \<Longrightarrow> levenshtein_similarity c c = 1"
  by (simp add: levenshtein_similarity_def levenshtein_distance_self)

lemma set_similarity_bounds: "0 \<le> set_similarity A B \<and> set_similarity A B \<le> 1"
proof (cases "finite (A \<union> B)")
  case True
  then have "card (A \<inter> B) \<le> card (A \<union> B)" by (intro card_mono) auto
  then have "real (card (A \<inter> B)) \<le> real (card (A \<union> B))" by (simp only: of_nat_le_iff)
  then show ?thesis by (auto simp: set_similarity_def Let_def divide_le_eq_1)
next
  case False
  then show ?thesis by (simp add: set_similarity_def)
qed

lemma set_similarity_self: "finite A \<Longrightarrow> A \<noteq> {} \<Longrightarrow> set_similarity A A = 1"
  by (simp add: set_similarity_def card_gt_0_iff)

lemma calculate_symbols_bonus_bounds:
  "0 \<le> calculate_symbols_bonus E a b \<and> calculate_symbols_bonus E a b \<le> 1"
  using set_similarity_bounds
  by (auto simp: calculate_symbols_bonus_def Let_def split: option.splits)

lemma calculate_verse_number_bonus_bounds:
  "0 \<le> calculate_verse_number_bonus E a b \<and> calculate_verse_number_bonus E a b \<le> 1"
  by (simp add: calculate_verse_number_bonus_def Let_def)

lemma length_similarity_bounds:
  "0 \<le> (if max m n > 0 then real (min m n) / real (max m n) else 0) \<and>
   (if max m n > 0 then real (min m n) / real (max m n) else 0) \<le> (1::real)"
  by (auto simp: divide_le_eq_1)

lemma advanced_similarity_bounds:
  "0 \<le> advanced_similarity E o1 o2 c1 c2 \<and> advanced_similarity E o1 o2 c1 c2 \<le> 1"
proof -
  define w where "w = set_similarity (set (split c1)) (set (split c2))"
  define ch where
    "ch = set_similarity (set (str_replace 0x20 [] c1)) (set (str_replace 0x20 [] c2))"
  define l where "l = (if max (length c1) (length c2) > 0
    then real (min (length c1) (length c2)) / real (max (length c1) (length c2)) else 0)"
  define s where "s = calculate_symbols_bonus E o1 o2"
  have b: "0 \<le> w \<and> w \<le> 1" "0 \<le> ch \<and> ch \<le> 1" "0 \<le> l \<and> l \<le> 1" "0 \<le> s \<and> s \<le> 1"
    unfolding w_def ch_def l_def s_def
    using set_similarity_bounds calculate_symbols_bonus_bounds length_similarity_bounds
    by blast+
  have "advanced_similarity E o1 o2 c1 c2 = w * 0.4 + ch * 0.3 + l * 0.2 + s * 0.1"
    by (simp add: advanced_similarity_def Let_def w_def ch_def l_def s_def)
  then show ?thesis using b by simp
qed

lemma combined_similarity_bounds:
  "0 \<le> combined_similarity E o1 o2 c1 c2 \<and> combined_similarity E o1 o2 c1 c2 \<le> 1"
proof -
  define x where "x = simple_similarity c1 c2 * 0.3 + levenshtein_similarity c1 c2 * 0.3
     + advanced_similarity E o1 o2 c1 c2 * 0.3 + calculate_verse_number_bonus E o1 o2 * 0.1"
  have "0 \<le> x"
    unfolding x_def simple_similarity_def
    using sequence_matcher_ratio_bounds [of c1 c2] levenshtein_similarity_bounds [of c1 c2]
      advanced_similarity_bounds [of E o1 o2 c1 c2]
      calculate_verse_number_bonus_bounds [of E o1 o2]
    by simp
  moreover have "combined_similarity E o1 o2 c1 c2 = min x 1"
    by (simp add: combined_similarity_def Let_def x_def)
  ultimately show ?thesis by simp
qed

lemma text_similarity_combined_bounds:
  "0 \<le> text_similarity E a b Combined \<and> text_similarity E a b Combined \<le> 1"
  using combined_similarity_bounds by (simp add: text_similarity_def Let_def)

lemma calculate_match_score_bounds:
  "0 \<le> calculate_match_score E r rc x n \<and> calculate_match_score E r rc x n \<le> 1"
proof -
  define v :: real where
    "v = (if list_ex (\<lambda>verse. int (vn_value verse) = n) (extract_verse_numbers E x)
          then 0.15 else 0)"
  define s :: real where "s = (case font_manager E of
               None \<Rightarrow> 0
             | Some is_uthmani_symbol \<Rightarrow>
                 let ref_symbols = set (filter is_uthmani_symbol r);
                     ext_symbols = set (filter is_uthmani_symbol x)
                 in if ref_symbols \<noteq> {} \<and> ext_symbols \<noteq> {}
                    then let common = card (ref_symbols \<inter> ext_symbols);
                             total = card (ref_symbols \<union> ext_symbols)
                         in if total > 0 then (real common / real total) * 0.1 else 0
                    else 0)"
  have "0 \<le> v" by (simp add: v_def)
  moreover have "0 \<le> s" by (simp add: s_def Let_def split: option.splits)
  moreover have "calculate_match_score E r rc x n = min (text_similarity E r x Combined + v + s) 1"
    by (simp add: calculate_match_score_def Let_def v_def s_def)
  ultimately show ?thesis using text_similarity_combined_bounds [of E r x] by simp
qed

lemma text_similarity_bounds:
  "0 \<le> text_similarity E a b m \<and> text_similarity E a b m \<le> 1"
proof (cases "a = [] \<or> b = []")
  case True
  then show ?thesis by (auto simp: text_similarity_def)
next
  case False
  define c1 where "c1 = clean_text E a False"
  define c2 where "c2 = clean_text E b False"
  from False show ?thesis
    using combined_similarity_bounds [of E a b c1 c2] advanced_similarity_bounds [of E a b c1 c2]
      levenshtein_similarity_bounds [of c1 c2] sequence_matcher_ratio_bounds [of c1 c2]
    by (cases m) (simp_all add: text_similarity_def Let_def simple_similarity_def c1_def c2_def)
qed

text \<open>A stripped text that is not empty starts with a character that is not whitespace.\<close>

lemma strip_hd: "strip t \<noteq> [] \<Longrightarrow> \<not> is_space (hd (strip t))"
proof -
  assume ne: "strip t \<noteq> []"
  define u where "u = dropWhile is_space t"
  have "rev u = takeWhile is_space (rev u) @ dropWhile is_space (rev u)" by simp
  then have "u = rev (dropWhile is_space (rev u)) @ rev (takeWhile is_space (rev u))"
    by (metis rev_append rev_rev_ident)
  then have u: "u = strip t @ rev (takeWhile is_space (rev u))" by (simp add: strip_def u_def)
  with ne have "hd u = hd (strip t)" by (metis hd_append2)
  moreover have "u \<noteq> []" using u ne by auto
  then have "\<not> is_space (hd u)" unfolding u_def by (rule hd_dropWhile)
  ultimately show ?thesis by simp
qed

lemma clean_text_hd:
  assumes "clean_text E t k \<noteq> []"
  shows "\<not> is_space (hd (clean_text E t k))"
proof -
  from assms have "t \<noteq> []" by (auto simp: clean_text_def)
  then obtain u where "clean_text E t k = strip u" by (simp add: clean_text_def Let_def)
  with assms show ?thesis by (simp add: strip_hd)
qed

lemma find_runs_nonempty: "\<exists>c \<in> set t. p c \<Longrightarrow> find_runs p pos t \<noteq> []"
  by (induction p pos t rule: find_runs.induct) auto

lemma split_nonempty: "c \<noteq> [] \<Longrightarrow> \<not> is_space (hd c) \<Longrightarrow> split c \<noteq> []"
  unfolding split_def using find_runs_nonempty [of c "\<lambda>c. \<not> is_space c" 0]
  by (cases c) auto

lemma set_str_replace_delete: "set (str_replace old [] t) = set t - {old}"
  unfolding str_replace_def by (induction t) auto

lemma chars_nonempty:
  assumes "c \<noteq> []" "\<not> is_space (hd c)"
  shows "set (str_replace 0x20 [] c) \<noteq> {}"
proof -
  have "hd c \<noteq> 0x20" using assms(2) by (auto simp: is_space_def)
  moreover have "hd c \<in> set c" using assms(1) by simp
  ultimately show ?thesis unfolding set_str_replace_delete by blast
qed

lemma advanced_similarity_equal:
  assumes "c \<noteq> []" "\<not> is_space (hd c)"
  shows "advanced_similarity E o1 o2 c c = 9 / 10 + calculate_symbols_bonus E o1 o2 / 10"
proof -
  have w: "set_similarity (set (split c)) (set (split c)) = 1"
    using split_nonempty [OF assms] by (intro set_similarity_self) simp_all
  have ch: "set_similarity (set (str_replace 0x20 [] c)) (set (str_replace 0x20 [] c)) = 1"
    using chars_nonempty [OF assms] by (intro set_similarity_self) simp_all
  show ?thesis using assms(1) by (simp add: advanced_similarity_def Let_def w ch)
qed

lemma combined_similarity_equal:
  assumes "c \<noteq> []" "\<not> is_space (hd c)"
  shows "combined_similarity E o1 o2 c c =
     87 / 100 + 3 / 100 * calculate_symbols_bonus E o1 o2
       + 1 / 10 * calculate_verse_number_bonus E o1 o2"
proof -
  define s where "s = calculate_symbols_bonus E o1 o2"
  define v where "v = calculate_verse_number_bonus E o1 o2"
  have b: "0 \<le> s \<and> s \<le> 1" "0 \<le> v \<and> v \<le> 1"
    unfolding s_def v_def
    using calculate_symbols_bonus_bounds calculate_verse_number_bonus_bounds by blast+
  have "combined_similarity E o1 o2 c c =
     min (1 * 0.3 + 1 * 0.3 + (9 / 10 + s / 10) * 0.3 + v * 0.1) 1"
    by (simp only: combined_similarity_def Let_def simple_similarity_def
          sequence_matcher_ratio_self [OF assms(1)] levenshtein_similarity_self [OF assms(1)]
          advanced_similarity_equal [OF assms] s_def v_def)
  also have "1 * 0.3 + 1 * 0.3 + (9 / 10 + s / 10) * 0.3 + v * 0.1
               = 87 / 100 + 3 / 100 * s + 1 / 10 * v"
    by (simp add: field_simps)
  also have "min (87 / 100 + 3 / 100 * s + 1 / 10 * v) 1 = 87 / 100 + 3 / 100 * s + 1 / 10 * v"
    using b by simp
  finally show ?thesis by (simp only: s_def v_def)
qed

lemma text_similarity_equal_clean:
  assumes "clean_text E a False = clean_text E b False" "clean_text E a False \<noteq> []"
  shows "text_similarity E a b Combined =
     87 / 100 + 3 / 100 * calculate_symbols_bonus E a b
       + 1 / 10 * calculate_verse_number_bonus E a b"
proof -
  have "a \<noteq> []" "b \<noteq> []" using assms by (auto simp: clean_text_def)
  then have "text_similarity E a b Combined =
     combined_similarity E a b (clean_text E a False) (clean_text E a False)"
    using assms(1) by (simp add: text_similarity_def Let_def)
  then show ?thesis
    using combined_similarity_equal [OF assms(2) clean_text_hd [OF assms(2)]] by simp
qed

lemma verse_bonus_by_values:
  "calculate_verse_number_bonus E a b =
     (if verse_values E a = {} \<or> verse_values E b = {} then 0
      else if verse_values E a = verse_values E b then 1
      else if verse_values E a \<inter> verse_values E b \<noteq> {} then 0.5 else 0)"
  by (simp add: calculate_verse_number_bonus_def verse_values_def Let_def)

lemma symbols_bonus_by_symbols:
  "calculate_symbols_bonus E a b =
     (if uthmani_symbols E a = {} \<and> uthmani_symbols E b = {} then 0
      else set_similarity (uthmani_symbols E a) (uthmani_symbols E b))"
  by (cases "font_manager E")
     (simp_all add: calculate_symbols_bonus_def uthmani_symbols_def Let_def del: set_filter)

lemma text_similarity_depends:
  assumes "clean_text E a False = clean_text E a' False"
    and "clean_text E b False = clean_text E b' False"
    and "a = [] \<longleftrightarrow> a' = []" and "b = [] \<longleftrightarrow> b' = []"
    and "verse_values E a = verse_values E a'" and "verse_values E b = verse_values E b'"
    and "uthmani_symbols E a = uthmani_symbols E a'"
    and "uthmani_symbols E b = uthmani_symbols E b'"
  shows "text_similarity E a b Combined = text_similarity E a' b' Combined"
proof -
  have v: "calculate_verse_number_bonus E a b = calculate_verse_number_bonus E a' b'"
    unfolding verse_bonus_by_values using assms(5,6) by simp
  have s: "calculate_symbols_bonus E a b = calculate_symbols_bonus E a' b'"
    unfolding symbols_bonus_by_symbols using assms(7,8) by simp
  have "advanced_similarity E a b (clean_text E a False) (clean_text E b False)
      = advanced_similarity E a' b' (clean_text E a' False) (clean_text E b' False)"
    unfolding advanced_similarity_def s assms(1,2) ..
  then have "combined_similarity E a b (clean_text E a False) (clean_text E b False)
      = combined_similarity E a' b' (clean_text E a' False) (clean_text E b' False)"
    unfolding combined_similarity_def v assms(1,2) by simp
  then show ?thesis using assms(3,4) by (simp add: text_similarity_def Let_def)
qed

section \<open>The model on the concrete inputs\<close>

lemma not_key_space: "0x20 \<notin> fst ` set all_normalizations"
  unfolding normalization_keys
  by (simp add: alef_variants_def yaa_variants_def taa_marbuta_def waw_variants_def
        hamza_variants_def letter_forms_def)

lemma example_text_unchanged:
  "set t \<subseteq> {0x20, 0x0628, 0x064E, 0x0661}
     \<Longrightarrow> fold (\<lambda>(old, new) acc. str_replace old new acc) all_normalizations t = t"
  using not_key_space not_key_beh not_key_fatha not_key_one
  by (intro replace_all_absent) auto

lemmas clean_eval =
  clean_text_def normalize_text_def example_env_def example_font_env_def
  example_decimal_value_def example_text_unchanged strip_def is_space_def
  diacritic_sub_def in_diacritic_chars is_decimal_def special_symbols_def

lemma clean_beh: "clean_text example_env [0x0628] False = [0x0628]"
  by (simp add: clean_eval)

lemma clean_beh_one: "clean_text example_env [0x0628, 0x0661] False = [0x0628]"
  by (simp add: clean_eval)

lemma clean_one_beh: "clean_text example_env [0x0661, 0x0628] False = [0x0628]"
  by (simp add: clean_eval)

lemma clean_beh_fatha_one:
  "clean_text example_font_env [0x0628, 0x064E, 0x0661] False = [0x0628]"
  by (simp add: clean_eval)

lemmas verse_eval =
  extract_verse_numbers_def arabic_verse_numbers_def ARABIC_NUMBERS_def is_decimal_def
  example_env_def example_font_env_def example_decimal_value_def int_of_digits_def
  english_digit_def context_of_def

lemma verses_beh: "extract_verse_numbers example_env [0x0628] = []"
  by (simp add: verse_eval)

lemma verses_beh_one:
  "map vn_value (extract_verse_numbers example_env [0x0628, 0x0661]) = [1, 1]"
  by (simp add: verse_eval)

lemma verses_one_beh:
  "map vn_value (extract_verse_numbers example_env [0x0661, 0x0628]) = [1, 1]"
  by (simp add: verse_eval)

lemma verses_beh_fatha_one:
  "map vn_value (extract_verse_numbers example_font_env [0x0628, 0x064E, 0x0661]) = [1, 1]"
  by (simp add: verse_eval)

lemma score_beh_beh: "text_similarity example_env [0x0628] [0x0628] Combined = 87 / 100"
proof -
  have "calculate_symbols_bonus example_env [0x0628] [0x0628] = 0"
    by (simp add: calculate_symbols_bonus_def example_env_def)
  moreover have "calculate_verse_number_bonus example_env [0x0628] [0x0628] = 0"
    by (simp add: calculate_verse_number_bonus_def verses_beh)
  ultimately show ?thesis
    using text_similarity_equal_clean [of example_env "[0x0628]" "[0x0628]"]
    by (simp add: clean_beh)
qed

lemma score_beh_one_beh_one:
  "text_similarity example_env [0x0628, 0x0661] [0x0628, 0x0661] Combined = 97 / 100"
proof -
  have "calculate_symbols_bonus example_env [0x0628, 0x0661] [0x0628, 0x0661] = 0"
    by (simp add: calculate_symbols_bonus_def example_env_def)
  moreover have "verse_values example_env [0x0628, 0x0661] = {1}"
    by (simp add: verse_values_def verses_beh_one)
  then have "calculate_verse_number_bonus example_env [0x0628, 0x0661] [0x0628, 0x0661] = 1"
    by (simp add: verse_bonus_by_values)
  ultimately show ?thesis
    using text_similarity_equal_clean [of example_env "[0x0628, 0x0661]" "[0x0628, 0x0661]"]
    by (simp add: clean_beh_one)
qed

lemma score_beh_beh_one:
  "text_similarity example_env [0x0628] [0x0628, 0x0661] Combined = 87 / 100"
proof -
  have "calculate_symbols_bonus example_env [0x0628] [0x0628, 0x0661] = 0"
    by (simp add: calculate_symbols_bonus_def example_env_def)
  moreover have "calculate_verse_number_bonus example_env [0x0628] [0x0628, 0x0661] = 0"
    by (simp add: calculate_verse_number_bonus_def verses_beh)
  ultimately show ?thesis
    using text_similarity_equal_clean [of example_env "[0x0628]" "[0x0628, 0x0661]"]
    by (simp add: clean_beh clean_beh_one)
qed

text \<open>The scores of the example page.\<close>

lemma matching_size_empty: "matching_size P a [] = 0"
  using matching_size_le [of P a "[]"] by simp

lemma clean_one: "clean_text example_env [0x0661] False = []"
  by (simp add: clean_eval)

lemma verses_one: "map vn_value (extract_verse_numbers example_env [0x0661]) = [1, 1]"
  by (simp add: verse_eval)

lemma example_env_no_font:
  "font_manager example_env = None" "calculate_symbols_bonus example_env a b = 0"
  by (simp_all add: calculate_symbols_bonus_def example_env_def)

lemma score_beh_one: "text_similarity example_env [0x0628] [0x0661] Combined = 0"
proof -
  have "sequence_matcher_ratio [0x0628::nat] [] = 0"
    by (simp add: sequence_matcher_ratio_def matching_size_empty)
  moreover have "calculate_verse_number_bonus example_env [0x0628] [0x0661] = 0"
    by (simp add: calculate_verse_number_bonus_def verses_beh)
  ultimately show ?thesis
    by (simp add: text_similarity_def clean_beh clean_one combined_similarity_def Let_def
          simple_similarity_def levenshtein_similarity_def advanced_similarity_def
          example_env_no_font set_similarity_def split_def str_replace_def)
qed

lemma match_score_digit_fragment:
  "n \<noteq> 1 \<Longrightarrow> calculate_match_score example_env [0x0628] rc [0x0661] n = 0"
proof -
  assume "n \<noteq> 1"
  then have "\<not> list_ex (\<lambda>verse. int (vn_value verse) = n)
                 (extract_verse_numbers example_env [0x0661])"
    using verses_one by (auto simp: list_ex_iff dest!: arg_cong [where f = set])
  then show ?thesis
    by (simp add: calculate_match_score_def score_beh_one Let_def example_env_no_font)
qed

lemma match_score_beh_fragment:
  "calculate_match_score example_env [0x0628] rc [0x0628] n = 87 / 100"
  by (simp add: calculate_match_score_def score_beh_beh verses_beh Let_def example_env_no_font)

lemma example_run:
  "match_ayat_state example_env example_config 0 0 example_ayat example_texts 1 =
     \<lparr> matches = [make_match example_env 1 (example_row 1 2) beh_fragment (87 / 100)],
       used_texts = {1}, stats_matched = 1, stats_unmatched = 1 \<rparr>"
  by (simp add: match_ayat_state_def example_ayat_def example_row_def match_row_def
        enumerate_eq_zip example_texts_def digit_fragment_def beh_fragment_def
        match_score_digit_fragment match_score_beh_fragment example_config_def)

section \<open>The claims about the scorer\<close>

lemma self_bonuses:
  "calculate_symbols_bonus E a a = (if uthmani_symbols E a = {} then 0 else 1)"
  "calculate_verse_number_bonus E a a = (if verse_values E a = {} then 0 else 1)"
proof -
  have "finite (uthmani_symbols E a)"
    by (simp add: uthmani_symbols_def split: option.splits)
  then show "calculate_symbols_bonus E a a = (if uthmani_symbols E a = {} then 0 else 1)"
    by (simp add: symbols_bonus_by_symbols set_similarity_self)
  show "calculate_verse_number_bonus E a a = (if verse_values E a = {} then 0 else 1)"
    by (simp add: verse_bonus_by_values)
qed

text \<open>
  Claim C1, as the code has it. When the cleaned forms of two texts are equal and not
  empty, the three text measures agree fully, but a tenth of the weight of the combined
  score belongs to the verse-number bonus and a part of the advanced measure to the symbols
  bonus, both computed from the raw texts. The combined score is therefore high, at least
  \<open>0.86\<close>, and at most \<open>1\<close>, and it stays strictly below \<open>1\<close> whenever one of the two bonuses
  is below \<open>1\<close>. In particular a text scored against itself stays below \<open>1\<close> when it has no
  verse number, or no Uthmani symbol that the font manager knows. The bounds are stated
  with room for the rounding of the floating-point sums.
\<close>

theorem equal_clean_texts_score_bounds:
  assumes "clean_text E a False = clean_text E b False" and "clean_text E a False \<noteq> []"
  shows "86 / 100 \<le> text_similarity E a b Combined \<and>
         text_similarity E a b Combined \<le> 1 \<and>
         (calculate_symbols_bonus E a b < 1 \<or> calculate_verse_number_bonus E a b < 1 \<longrightarrow>
            text_similarity E a b Combined < 1) \<and>
         (uthmani_symbols E a = {} \<or> verse_values E a = {} \<longrightarrow>
            text_similarity E a a Combined < 1)"
proof -
  note eq = text_similarity_equal_clean [OF assms]
  note self = text_similarity_equal_clean [OF refl assms(2)]
  have b: "0 \<le> calculate_symbols_bonus E a b \<and> calculate_symbols_bonus E a b \<le> 1"
    "0 \<le> calculate_verse_number_bonus E a b \<and> calculate_verse_number_bonus E a b \<le> 1"
    using calculate_symbols_bonus_bounds calculate_verse_number_bonus_bounds by blast+
  have low: "86 / 100 \<le> text_similarity E a b Combined" unfolding eq using b by simp
  have up: "text_similarity E a b Combined \<le> 1" unfolding eq using b by simp
  have strict: "text_similarity E a b Combined < 1"
    if "calculate_symbols_bonus E a b < 1 \<or> calculate_verse_number_bonus E a b < 1"
    unfolding eq using b that by auto
  have own: "text_similarity E a a Combined < 1"
    if "uthmani_symbols E a = {} \<or> verse_values E a = {}"
    unfolding self self_bonuses using that by auto
  from low up strict own show ?thesis by blast
qed

theorem equal_clean_texts_score_bounds_witness:
  "clean_text example_env [0x0628, 0x0661] False = clean_text example_env [0x0661, 0x0628] False \<and>
   clean_text example_env [0x0628, 0x0661] False \<noteq> [] \<and>
   calculate_symbols_bonus example_env [0x0628, 0x0661] [0x0661, 0x0628] < 1 \<and>
   uthmani_symbols example_env [0x0628, 0x0661] = {} \<and>
   86 / 100 \<le> text_similarity example_env [0x0628, 0x0661] [0x0661, 0x0628] Combined \<and>
   text_similarity example_env [0x0628, 0x0661] [0x0661, 0x0628] Combined < 1 \<and>
   text_similarity example_env [0x0628, 0x0661] [0x0628, 0x0661] Combined < 1"
proof -
  have c: "clean_text example_env [0x0628, 0x0661] False
             = clean_text example_env [0x0661, 0x0628] False"
    by (simp add: clean_beh_one clean_one_beh)
  have n: "clean_text example_env [0x0628, 0x0661] False \<noteq> []"
    by (simp add: clean_beh_one)
  have s: "calculate_symbols_bonus example_env [0x0628, 0x0661] [0x0661, 0x0628] < 1"
    by (simp add: example_env_no_font)
  have u: "uthmani_symbols example_env [0x0628, 0x0661] = {}"
    by (simp add: uthmani_symbols_def example_env_no_font)
  from equal_clean_texts_score_bounds [OF c n] s u c n show ?thesis by blast
qed

text \<open>The claim as the specification states it fails: the letter beh scored against
  itself, with no font manager, gets \<open>0.87\<close> in exact arithmetic (one rounding step
  below it in floating point), not \<open>1\<close>.\<close>

theorem self_score_below_one:
  "clean_text example_env [0x0628] False = [0x0628] \<and>
   text_similarity example_env [0x0628] [0x0628] Combined = 87 / 100 \<and>
   text_similarity example_env [0x0628] [0x0628] Combined \<noteq> 1"
  by (simp add: clean_beh score_beh_beh)

text \<open>
  Claim C4, as the code has it. The combined score of two texts is determined by their
  cleaned forms together with what the bonuses and the empty-text guard read from the raw
  texts: if \<open>a\<close>, \<open>a'\<close> and \<open>b\<close>, \<open>b'\<close> have the same cleaned forms, contain the same verse
  numbers and the same Uthmani symbols, and are empty together, then
  \<open>score(a, b) = score(a', b')\<close>.
\<close>

theorem score_depends_on_clean_and_bonus_inputs:
  assumes "clean_text E a False = clean_text E a' False"
    and "clean_text E b False = clean_text E b' False"
    and "a = [] \<longleftrightarrow> a' = []" and "b = [] \<longleftrightarrow> b' = []"
    and "verse_values E a = verse_values E a'" and "verse_values E b = verse_values E b'"
    and "uthmani_symbols E a = uthmani_symbols E a'"
    and "uthmani_symbols E b = uthmani_symbols E b'"
  shows "text_similarity E a b Combined = text_similarity E a' b' Combined"
  using assms by (rule text_similarity_depends)

theorem score_depends_on_clean_and_bonus_inputs_witness:
  "clean_text example_env [0x0628, 0x0661] False = clean_text example_env [0x0661, 0x0628] False \<and>
   verse_values example_env [0x0628, 0x0661] = verse_values example_env [0x0661, 0x0628] \<and>
   uthmani_symbols example_env [0x0628, 0x0661] = uthmani_symbols example_env [0x0661, 0x0628] \<and>
   text_similarity example_env [0x0628, 0x0661] [0x0628] Combined
     = text_similarity example_env [0x0661, 0x0628] [0x0628] Combined"
proof -
  have c: "clean_text example_env [0x0628, 0x0661] False
             = clean_text example_env [0x0661, 0x0628] False"
    by (simp add: clean_beh_one clean_one_beh)
  have v: "verse_values example_env [0x0628, 0x0661] = verse_values example_env [0x0661, 0x0628]"
    by (simp add: verse_values_def verses_beh_one verses_one_beh)
  have u: "uthmani_symbols example_env [0x0628, 0x0661]
             = uthmani_symbols example_env [0x0661, 0x0628]"
    by (simp add: uthmani_symbols_def example_env_def)
  have e: "([0x0628, 0x0661] = ([]::ustring)) \<longleftrightarrow> ([0x0661, 0x0628] = ([]::ustring))"
    "([0x0628] = ([]::ustring)) \<longleftrightarrow> ([0x0628] = ([]::ustring))"
    by simp_all
  from score_depends_on_clean_and_bonus_inputs [OF c refl e v refl u refl] c v u
  show ?thesis by simp
qed

text \<open>The claim as the specification states it fails: a digit that cleaning removes
  still earns the verse-number bonus. With \<open>b\<close> the letter beh followed by the digit one,
  \<open>a = b\<close> and \<open>a'\<close> the letter beh alone have the same cleaned form, and the scores against
  \<open>b\<close> differ.\<close>

theorem raw_digit_changes_score:
  "clean_text example_env [0x0628, 0x0661] False = clean_text example_env [0x0628] False \<and>
   text_similarity example_env [0x0628, 0x0661] [0x0628, 0x0661] Combined = 97 / 100 \<and>
   text_similarity example_env [0x0628] [0x0628, 0x0661] Combined = 87 / 100 \<and>
   text_similarity example_env [0x0628, 0x0661] [0x0628, 0x0661] Combined
     \<noteq> text_similarity example_env [0x0628] [0x0628, 0x0661] Combined"
  by (simp add: clean_beh clean_beh_one score_beh_one_beh_one score_beh_beh_one)

text \<open>
  Claim C5. Every score that \<open>text_similarity\<close> returns, whatever the method, lies between
  \<open>0\<close> and \<open>1\<close>, and so does the match score of the page matcher, which adds the
  verse-number bonus \<open>0.15\<close> and the symbol bonus of at most \<open>0.1\<close> and caps the sum at \<open>1\<close>.
\<close>

theorem scores_in_unit_interval:
  "0 \<le> text_similarity E a b m \<and> text_similarity E a b m \<le> 1 \<and>
   0 \<le> calculate_match_score E ref_text ref_clean extracted_text aya_number \<and>
   calculate_match_score E ref_text ref_clean extracted_text aya_number \<le> 1"
  using text_similarity_bounds [of E a b m]
    calculate_match_score_bounds [of E ref_text ref_clean extracted_text aya_number]
  by simp

section \<open>Properties of the matcher\<close>

text \<open>What one pass of the inner loop returns: the best pair it started with, or an unused
  candidate whose score reaches the threshold and beats the starting score.\<close>

lemma best_text_result:
  "best_text E cfg row used xs (bm0, bs0) = (bm, bs) \<Longrightarrow>
     (bm = bm0 \<and> bs = bs0) \<or>
     (\<exists>(i, t) \<in> set xs. bm = Some (i, t) \<and> i \<notin> used \<and>
        bs = calculate_match_score E (aya_text row) (row_text_clean row) (etext t) (row_aya_no row) \<and>
        min_similarity cfg \<le> bs \<and> bs0 < bs)"
proof (induction xs arbitrary: bm0 bs0)
  case Nil
  then show ?case by simp
next
  case (Cons x xs)
  obtain i t where x: "x = (i, t)" by (cases x) auto
  define s where
    "s = calculate_match_score E (aya_text row) (row_text_clean row) (etext t) (row_aya_no row)"
  show ?case
  proof (cases "i \<notin> used \<and> bs0 < s \<and> min_similarity cfg \<le> s")
    case True
    then have "best_text E cfg row used xs (Some (i, t), s) = (bm, bs)"
      using Cons.prems by (simp add: x s_def Let_def)
    from Cons.IH [OF this] True show ?thesis by (fastforce simp: x s_def)
  next
    case False
    then have "best_text E cfg row used xs (bm0, bs0) = (bm, bs)"
      using Cons.prems by (auto simp: x s_def Let_def split: if_splits)
    from Cons.IH [OF this] show ?thesis by (fastforce simp: x)
  qed
qed

lemma best_text_below_threshold:
  assumes "\<forall>(i, t) \<in> set xs. i \<notin> used \<longrightarrow>
     calculate_match_score E (aya_text row) (row_text_clean row) (etext t) (row_aya_no row)
       < min_similarity cfg"
  shows "best_text E cfg row used xs best = best"
  using assms
proof (induction xs)
  case Nil
  show ?case by simp
next
  case (Cons x xs)
  obtain i t where x: "x = (i, t)" by (cases x) auto
  obtain bm bs where b: "best = (bm, bs)" by (cases best) auto
  from Cons show ?case by (auto simp: x b Let_def)
qed

lemma match_row_cases:
  obtains (matched) i m where "emitted_from E cfg texts pn (used_texts st) row i m"
      "match_row E cfg texts pn row st =
         st \<lparr> used_texts := insert i (used_texts st), matches := matches st @ [m],
              stats_matched := stats_matched st + 1 \<rparr>"
  | (unmatched)
      "match_row E cfg texts pn row st = st \<lparr> stats_unmatched := stats_unmatched st + 1 \<rparr>"
proof -
  obtain bm bs where r:
    "best_text E cfg row (used_texts st) (List.enumerate 0 texts) (None, 0) = (bm, bs)"
    by (cases "best_text E cfg row (used_texts st) (List.enumerate 0 texts) (None, 0)") auto
  show thesis
  proof (cases bm)
    case None
    then show ?thesis using r unmatched by (simp add: match_row_def)
  next
    case (Some p)
    obtain i t where p: "p = (i, t)" by (cases p) auto
    from best_text_result [OF r] Some p
    have "(i, t) \<in> set (List.enumerate 0 texts)" "i \<notin> used_texts st"
      "bs = calculate_match_score E (aya_text row) (row_text_clean row) (etext t) (row_aya_no row)"
      "min_similarity cfg \<le> bs" "0 < bs"
      by auto
    then have "emitted_from E cfg texts pn (used_texts st) row i (make_match E pn row t bs)"
      by (auto simp: emitted_from_def in_set_enumerate_eq Let_def)
    moreover have "match_row E cfg texts pn row st =
         st \<lparr> used_texts := insert i (used_texts st),
              matches := matches st @ [make_match E pn row t bs],
              stats_matched := stats_matched st + 1 \<rparr>"
      using r Some p by (simp add: match_row_def)
    ultimately show ?thesis using matched by blast
  qed
qed

text \<open>The outer loop, summarised: the matches it adds come one each from a subsequence
  of the rows, each from a candidate of its own that was not used before.\<close>

lemma match_fold:
  assumes "used_texts st \<subseteq> {..<length texts}"
  shows "\<exists>trs.
     matches (fold (match_row E cfg texts pn) rows st) = matches st @ map (snd \<circ> snd) trs \<and>
     subseq (map fst trs) rows \<and>
     (\<forall>(r, i, m) \<in> set trs. \<exists>used. emitted_from E cfg texts pn used r i m) \<and>
     used_texts (fold (match_row E cfg texts pn) rows st)
       = used_texts st \<union> set (map (fst \<circ> snd) trs) \<and>
     distinct (map (fst \<circ> snd) trs) \<and>
     set (map (fst \<circ> snd) trs) \<inter> used_texts st = {} \<and>
     stats_matched (fold (match_row E cfg texts pn) rows st) = stats_matched st + length trs \<and>
     stats_unmatched (fold (match_row E cfg texts pn) rows st)
       = stats_unmatched st + (length rows - length trs)"
  using assms
proof (induction rows arbitrary: st)
  case Nil
  show ?case by (rule exI [of _ "[]"]) simp
next
  case (Cons row rows)
  let ?f = "match_row E cfg texts pn"
  show ?case
  proof (cases rule: match_row_cases [of E cfg texts pn st row])
    case (matched i m)
    define st1 where "st1 = ?f row st"
    have st1: "used_texts st1 = insert i (used_texts st)" "matches st1 = matches st @ [m]"
      "stats_matched st1 = stats_matched st + 1" "stats_unmatched st1 = stats_unmatched st"
      by (simp_all add: st1_def matched(2))
    from matched(1) have i: "i < length texts" "i \<notin> used_texts st"
      by (simp_all add: emitted_from_def)
    with Cons.prems have "used_texts st1 \<subseteq> {..<length texts}" by (simp add: st1)
    from Cons.IH [OF this] obtain trs where t:
      "matches (fold ?f rows st1) = matches st1 @ map (snd \<circ> snd) trs"
      "subseq (map fst trs) rows"
      "\<forall>(r, i, m) \<in> set trs. \<exists>used. emitted_from E cfg texts pn used r i m"
      "used_texts (fold ?f rows st1) = used_texts st1 \<union> set (map (fst \<circ> snd) trs)"
      "distinct (map (fst \<circ> snd) trs)"
      "set (map (fst \<circ> snd) trs) \<inter> used_texts st1 = {}"
      "stats_matched (fold ?f rows st1) = stats_matched st1 + length trs"
      "stats_unmatched (fold ?f rows st1) = stats_unmatched st1 + (length rows - length trs)"
      by blast
    have len: "length trs \<le> length rows"
      using list_emb_length [OF t(2)] by simp
    show ?thesis
    proof (rule exI [of _ "(row, i, m) # trs"], intro conjI)
      show "matches (fold ?f (row # rows) st) = matches st @ map (snd \<circ> snd) ((row, i, m) # trs)"
        using t(1) by (simp add: st1_def [symmetric] st1)
      show "subseq (map fst ((row, i, m) # trs)) (row # rows)" using t(2) by simp
      show "\<forall>(r, i, m) \<in> set ((row, i, m) # trs). \<exists>used. emitted_from E cfg texts pn used r i m"
        using t(3) matched(1) by auto
      show "used_texts (fold ?f (row # rows) st)
              = used_texts st \<union> set (map (fst \<circ> snd) ((row, i, m) # trs))"
        using t(4) by (simp add: st1_def [symmetric] st1)
      show "distinct (map (fst \<circ> snd) ((row, i, m) # trs))"
        using t(5,6) by (auto simp: st1)
      show "set (map (fst \<circ> snd) ((row, i, m) # trs)) \<inter> used_texts st = {}"
        using t(6) i by (auto simp: st1)
      show "stats_matched (fold ?f (row # rows) st) = stats_matched st + length ((row, i, m) # trs)"
        using t(7) by (simp add: st1_def [symmetric] st1)
      show "stats_unmatched (fold ?f (row # rows) st)
              = stats_unmatched st + (length (row # rows) - length ((row, i, m) # trs))"
        using t(8) by (simp add: st1_def [symmetric] st1)
    qed
  next
    case unmatched
    define st1 where "st1 = ?f row st"
    have st1: "used_texts st1 = used_texts st" "matches st1 = matches st"
      "stats_matched st1 = stats_matched st" "stats_unmatched st1 = stats_unmatched st + 1"
      by (simp_all add: st1_def unmatched)
    with Cons.prems have "used_texts st1 \<subseteq> {..<length texts}" by simp
    from Cons.IH [OF this] obtain trs where t:
      "matches (fold ?f rows st1) = matches st1 @ map (snd \<circ> snd) trs"
      "subseq (map fst trs) rows"
      "\<forall>(r, i, m) \<in> set trs. \<exists>used. emitted_from E cfg texts pn used r i m"
      "used_texts (fold ?f rows st1) = used_texts st1 \<union> set (map (fst \<circ> snd) trs)"
      "distinct (map (fst \<circ> snd) trs)"
      "set (map (fst \<circ> snd) trs) \<inter> used_texts st1 = {}"
      "stats_matched (fold ?f rows st1) = stats_matched st1 + length trs"
      "stats_unmatched (fold ?f rows st1) = stats_unmatched st1 + (length rows - length trs)"
      by blast
    have len: "length trs \<le> length rows"
      using list_emb_length [OF t(2)] by simp
    show ?thesis
    proof (rule exI [of _ trs], intro conjI)
      show "matches (fold ?f (row # rows) st) = matches st @ map (snd \<circ> snd) trs"
        using t(1) by (simp add: st1_def [symmetric] st1)
      show "subseq (map fst trs) (row # rows)" using t(2) by (rule list_emb_Cons)
      show "\<forall>(r, i, m) \<in> set trs. \<exists>used. emitted_from E cfg texts pn used r i m"
        using t(3) .
      show "used_texts (fold ?f (row # rows) st) = used_texts st \<union> set (map (fst \<circ> snd) trs)"
        using t(4) by (simp add: st1_def [symmetric] st1)
      show "distinct (map (fst \<circ> snd) trs)" using t(5) .
      show "set (map (fst \<circ> snd) trs) \<inter> used_texts st = {}" using t(6) by (simp add: st1)
      show "stats_matched (fold ?f (row # rows) st) = stats_matched st + length trs"
        using t(7) by (simp add: st1_def [symmetric] st1)
      show "stats_unmatched (fold ?f (row # rows) st)
              = stats_unmatched st + (length (row # rows) - length trs)"
        using t(8) len by (simp add: st1_def [symmetric] st1)
    qed
  qed
qed

lemma match_ayat_state_summary:
  "\<exists>trs.
     matches (match_ayat_state E cfg m0 u0 ayat_df texts pn) = map (snd \<circ> snd) trs \<and>
     subseq (map fst trs) (filter (\<lambda>row. row_page row = pn) ayat_df) \<and>
     (\<forall>(r, i, m) \<in> set trs. \<exists>used. emitted_from E cfg texts pn used r i m) \<and>
     used_texts (match_ayat_state E cfg m0 u0 ayat_df texts pn) = set (map (fst \<circ> snd) trs) \<and>
     distinct (map (fst \<circ> snd) trs) \<and>
     stats_matched (match_ayat_state E cfg m0 u0 ayat_df texts pn) = m0 + length trs \<and>
     stats_unmatched (match_ayat_state E cfg m0 u0 ayat_df texts pn)
       = u0 + (length (filter (\<lambda>row. row_page row = pn) ayat_df) - length trs)"
proof -
  define init where
    "init = \<lparr> matches = [], used_texts = {}, stats_matched = m0, stats_unmatched = u0 \<rparr>"
  define rows where "rows = filter (\<lambda>row. row_page row = pn) ayat_df"
  have s: "match_ayat_state E cfg m0 u0 ayat_df texts pn
             = fold (match_row E cfg texts pn) rows init"
    by (cases "rows = []") (simp_all add: match_ayat_state_def Let_def rows_def init_def)
  have "used_texts init \<subseteq> {..<length texts}" by (simp add: init_def)
  from match_fold [OF this, of E cfg pn rows] show ?thesis
    unfolding s rows_def [symmetric] by (simp add: init_def)
qed

lemma emitted_from_facts:
  assumes "emitted_from E cfg texts pn used r i m"
  shows "min_similarity cfg \<le> similarity m" "0 < similarity m"
    "sura_no m = row_sura_no r" "aya_no m = row_aya_no r"
    "i < length texts" "text_extracted m = etext (texts ! i)" "m_bbox m = bbox (texts ! i)"
    "m_source m = source (texts ! i)"
    "m_confidence m = confidence (texts ! i) * similarity m"
  using assms by (simp_all add: emitted_from_def Let_def make_match_def)

section \<open>The claims about the matcher\<close>

text \<open>
  Claim C2. Every match that \<open>match_ayat_with_texts\<close> returns has a similarity of at least
  the configured \<open>min_similarity\<close>. And in any state of the loop, a verse for which every
  candidate not yet used scores below the threshold adds no match: the step only counts the
  verse as unmatched.
\<close>

theorem matches_reach_threshold:
  "(\<forall>m \<in> set (match_ayat_with_texts E cfg ayat_df texts pn).
      min_similarity cfg \<le> similarity m) \<and>
   ((\<forall>i < length texts. i \<notin> used_texts st \<longrightarrow>
       calculate_match_score E (aya_text row) (row_text_clean row) (etext (texts ! i))
         (row_aya_no row) < min_similarity cfg) \<longrightarrow>
    match_row E cfg texts pn row st = st \<lparr> stats_unmatched := stats_unmatched st + 1 \<rparr>)"
proof (intro conjI ballI impI)
  fix m
  assume m: "m \<in> set (match_ayat_with_texts E cfg ayat_df texts pn)"
  from match_ayat_state_summary [of E cfg 0 0 ayat_df texts pn] obtain trs where
    t: "matches (match_ayat_state E cfg 0 0 ayat_df texts pn) = map (snd \<circ> snd) trs"
       "\<forall>(r, i, m) \<in> set trs. \<exists>used. emitted_from E cfg texts pn used r i m"
    by blast
  from m t(1) obtain r i where "(r, i, m) \<in> set trs"
    by (auto simp: match_ayat_with_texts_def)
  with t(2) obtain used where "emitted_from E cfg texts pn used r i m" by blast
  then show "min_similarity cfg \<le> similarity m" by (rule emitted_from_facts)
next
  assume low: "\<forall>i < length texts. i \<notin> used_texts st \<longrightarrow>
       calculate_match_score E (aya_text row) (row_text_clean row) (etext (texts ! i))
         (row_aya_no row) < min_similarity cfg"
  have "best_text E cfg row (used_texts st) (List.enumerate 0 texts) (None, 0) = (None, 0)"
    using low by (intro best_text_below_threshold) (auto simp: in_set_enumerate_eq)
  then show "match_row E cfg texts pn row st = st \<lparr> stats_unmatched := stats_unmatched st + 1 \<rparr>"
    by (simp add: match_row_def)
qed

theorem matches_reach_threshold_witness:
  "map similarity (match_ayat_with_texts example_env example_config example_ayat example_texts 1)
     = [87 / 100] \<and>
   min_similarity example_config = 1 / 2 \<and>
   calculate_match_score example_env (aya_text (example_row 1 3)) (row_text_clean (example_row 1 3))
     (etext (example_texts ! 0)) (row_aya_no (example_row 1 3)) < min_similarity example_config \<and>
   stats_unmatched
     (match_row example_env example_config example_texts 1 (example_row 1 3)
        \<lparr> matches = [], used_texts = {1}, stats_matched = 1, stats_unmatched = 0 \<rparr>) = 1"
proof -
  let ?st = "\<lparr> matches = [], used_texts = {1}, stats_matched = 1, stats_unmatched = 0 \<rparr>"
  have r: "match_ayat_with_texts example_env example_config example_ayat example_texts 1
             = [make_match example_env 1 (example_row 1 2) beh_fragment (87 / 100)]"
    by (simp add: match_ayat_with_texts_def example_run)
  have s: "calculate_match_score example_env (aya_text (example_row 1 3))
       (row_text_clean (example_row 1 3)) (etext (example_texts ! 0)) (row_aya_no (example_row 1 3))
     < min_similarity example_config"
    by (simp add: example_row_def example_texts_def digit_fragment_def example_config_def
          match_score_digit_fragment)
  have low: "\<forall>i < length example_texts. i \<notin> used_texts ?st \<longrightarrow>
       calculate_match_score example_env (aya_text (example_row 1 3))
         (row_text_clean (example_row 1 3)) (etext (example_texts ! i))
         (row_aya_no (example_row 1 3)) < min_similarity example_config"
    using s by (auto simp: example_texts_def less_Suc_eq)
  note inst = matches_reach_threshold [of example_env example_config example_ayat example_texts 1
      ?st "example_row 1 3"]
  from inst low have "match_row example_env example_config example_texts 1 (example_row 1 3) ?st
      = ?st \<lparr> stats_unmatched := stats_unmatched ?st + 1 \<rparr>" by blast
  then show ?thesis using r s by (simp add: make_match_def example_config_def)
qed

text \<open>
  Claim C3. In one pass over a page the matches are as many as the candidates marked used,
  which are indices of the candidate list: no candidate serves two matches. The matches
  follow a subsequence of the verses of the page, one match for each verse of that
  subsequence, so that they are never more than the verses of the page. A single step
  either leaves the matches and the used set alone, or adds one match taken from a
  candidate that was not used before and marks that candidate used. The two counters grow
  by the number of matches and by the number of verses left unmatched.
\<close>

theorem one_match_per_verse_and_candidate:
  "length (matches (match_ayat_state E cfg m0 u0 ayat_df texts pn))
     = card (used_texts (match_ayat_state E cfg m0 u0 ayat_df texts pn)) \<and>
   used_texts (match_ayat_state E cfg m0 u0 ayat_df texts pn) \<subseteq> {..<length texts} \<and>
   subseq (map (\<lambda>m. (sura_no m, aya_no m)) (matches (match_ayat_state E cfg m0 u0 ayat_df texts pn)))
          (map (\<lambda>r. (row_sura_no r, row_aya_no r)) (filter (\<lambda>row. row_page row = pn) ayat_df)) \<and>
   length (match_ayat_with_texts E cfg ayat_df texts pn)
     \<le> length (filter (\<lambda>row. row_page row = pn) ayat_df) \<and>
   length (match_ayat_with_texts E cfg ayat_df texts pn) \<le> length texts \<and>
   stats_matched (match_ayat_state E cfg m0 u0 ayat_df texts pn)
     = m0 + length (matches (match_ayat_state E cfg m0 u0 ayat_df texts pn)) \<and>
   stats_unmatched (match_ayat_state E cfg m0 u0 ayat_df texts pn)
     = u0 + (length (filter (\<lambda>row. row_page row = pn) ayat_df)
              - length (matches (match_ayat_state E cfg m0 u0 ayat_df texts pn))) \<and>
   ((matches (match_row E cfg texts pn row st) = matches st \<and>
     used_texts (match_row E cfg texts pn row st) = used_texts st) \<or>
    (\<exists>i m. i < length texts \<and> i \<notin> used_texts st \<and> text_extracted m = etext (texts ! i) \<and>
       matches (match_row E cfg texts pn row st) = matches st @ [m] \<and>
       used_texts (match_row E cfg texts pn row st) = insert i (used_texts st)))"
proof -
  let ?rows = "filter (\<lambda>row. row_page row = pn) ayat_df"
  have summary: "\<exists>trs.
     matches (match_ayat_state E cfg m u ayat_df texts pn) = map (snd \<circ> snd) trs \<and>
     subseq (map fst trs) ?rows \<and>
     (\<forall>(r, i, m) \<in> set trs. \<exists>used. emitted_from E cfg texts pn used r i m) \<and>
     used_texts (match_ayat_state E cfg m u ayat_df texts pn) = set (map (fst \<circ> snd) trs) \<and>
     distinct (map (fst \<circ> snd) trs) \<and>
     stats_matched (match_ayat_state E cfg m u ayat_df texts pn) = m + length trs \<and>
     stats_unmatched (match_ayat_state E cfg m u ayat_df texts pn)
       = u + (length ?rows - length trs)" for m u
    by (rule match_ayat_state_summary)
  have props: "length (matches (match_ayat_state E cfg m u ayat_df texts pn))
       = card (used_texts (match_ayat_state E cfg m u ayat_df texts pn)) \<and>
     used_texts (match_ayat_state E cfg m u ayat_df texts pn) \<subseteq> {..<length texts} \<and>
     subseq (map (\<lambda>m. (sura_no m, aya_no m)) (matches (match_ayat_state E cfg m u ayat_df texts pn)))
            (map (\<lambda>r. (row_sura_no r, row_aya_no r)) ?rows) \<and>
     length (matches (match_ayat_state E cfg m u ayat_df texts pn)) \<le> length ?rows \<and>
     stats_matched (match_ayat_state E cfg m u ayat_df texts pn)
       = m + length (matches (match_ayat_state E cfg m u ayat_df texts pn)) \<and>
     stats_unmatched (match_ayat_state E cfg m u ayat_df texts pn)
       = u + (length ?rows - length (matches (match_ayat_state E cfg m u ayat_df texts pn)))"
    for m u
  proof -
    from summary [of m u] obtain trs where t:
      "matches (match_ayat_state E cfg m u ayat_df texts pn) = map (snd \<circ> snd) trs"
      "subseq (map fst trs) ?rows"
      "\<forall>(r, i, m) \<in> set trs. \<exists>used. emitted_from E cfg texts pn used r i m"
      "used_texts (match_ayat_state E cfg m u ayat_df texts pn) = set (map (fst \<circ> snd) trs)"
      "distinct (map (fst \<circ> snd) trs)"
      "stats_matched (match_ayat_state E cfg m u ayat_df texts pn) = m + length trs"
      "stats_unmatched (match_ayat_state E cfg m u ayat_df texts pn) = u + (length ?rows - length trs)"
      by blast
    have c: "card (set (map (fst \<circ> snd) trs)) = length trs"
      using distinct_card [OF t(5)] by simp
    have b: "set (map (fst \<circ> snd) trs) \<subseteq> {..<length texts}"
      using t(3) by (fastforce dest: emitted_from_facts(5))
    have keys: "map (\<lambda>m. (sura_no m, aya_no m)) (map (snd \<circ> snd) trs)
        = map (\<lambda>r. (row_sura_no r, row_aya_no r)) (map fst trs)"
      using t(3) by (fastforce dest: emitted_from_facts(3,4))
    have sub: "subseq (map (\<lambda>r. (row_sura_no r, row_aya_no r)) (map fst trs))
        (map (\<lambda>r. (row_sura_no r, row_aya_no r)) ?rows)"
      using t(2) by (rule subseq_map)
    have len: "length trs \<le> length ?rows" using list_emb_length [OF t(2)] by simp
    show ?thesis
    proof (intro conjI)
      show "length (matches (match_ayat_state E cfg m u ayat_df texts pn))
              = card (used_texts (match_ayat_state E cfg m u ayat_df texts pn))"
        unfolding t(1,4) c by simp
      show "used_texts (match_ayat_state E cfg m u ayat_df texts pn) \<subseteq> {..<length texts}"
        unfolding t(4) by (rule b)
      show "subseq (map (\<lambda>m. (sura_no m, aya_no m))
                 (matches (match_ayat_state E cfg m u ayat_df texts pn)))
              (map (\<lambda>r. (row_sura_no r, row_aya_no r)) ?rows)"
        unfolding t(1) keys by (rule sub)
      show "length (matches (match_ayat_state E cfg m u ayat_df texts pn)) \<le> length ?rows"
        unfolding t(1) using len by simp
      show "stats_matched (match_ayat_state E cfg m u ayat_df texts pn)
              = m + length (matches (match_ayat_state E cfg m u ayat_df texts pn))"
        unfolding t(1,6) by simp
      show "stats_unmatched (match_ayat_state E cfg m u ayat_df texts pn)
              = u + (length ?rows - length (matches (match_ayat_state E cfg m u ayat_df texts pn)))"
        unfolding t(1,7) by simp
    qed
  qed
  have le_texts: "length (matches (match_ayat_state E cfg 0 0 ayat_df texts pn)) \<le> length texts"
  proof -
    have "card (used_texts (match_ayat_state E cfg 0 0 ayat_df texts pn)) \<le> card {..<length texts}"
      using props [of 0 0] by (intro card_mono) simp_all
    then show ?thesis using props [of 0 0] by simp
  qed
  have step: "(matches (match_row E cfg texts pn row st) = matches st \<and>
     used_texts (match_row E cfg texts pn row st) = used_texts st) \<or>
    (\<exists>i m. i < length texts \<and> i \<notin> used_texts st \<and> text_extracted m = etext (texts ! i) \<and>
       matches (match_row E cfg texts pn row st) = matches st @ [m] \<and>
       used_texts (match_row E cfg texts pn row st) = insert i (used_texts st))"
  proof (cases rule: match_row_cases [of E cfg texts pn st row])
    case (matched i m)
    from emitted_from_facts(5,6) [OF matched(1)] matched show ?thesis
      by (auto simp: emitted_from_def)
  next
    case unmatched
    then show ?thesis by simp
  qed
  show ?thesis
    using props [of m0 u0] props [of 0 0] le_texts step
    by (simp add: match_ayat_with_texts_def)
qed

text \<open>
  Claim C10. Every match returned is built from one of the candidate fragments, and its
  confidence is that fragment's confidence multiplied by the similarity of the match. When
  no fragment has a confidence above \<open>1\<close>, the confidence of a match never exceeds its
  similarity.
\<close>

theorem match_confidence_is_product:
  "(\<forall>m \<in> set (match_ayat_with_texts E cfg ayat_df texts pn).
      \<exists>t \<in> set texts. text_extracted m = etext t \<and> m_bbox m = bbox t \<and> m_source m = source t \<and>
        m_confidence m = confidence t * similarity m) \<and>
   ((\<forall>t \<in> set texts. confidence t \<le> 1) \<longrightarrow>
    (\<forall>m \<in> set (match_ayat_with_texts E cfg ayat_df texts pn). m_confidence m \<le> similarity m))"
proof -
  have e: "\<exists>r i used. emitted_from E cfg texts pn used r i m"
    if "m \<in> set (match_ayat_with_texts E cfg ayat_df texts pn)" for m
  proof -
    from match_ayat_state_summary [of E cfg 0 0 ayat_df texts pn] obtain trs where
      t: "matches (match_ayat_state E cfg 0 0 ayat_df texts pn) = map (snd \<circ> snd) trs"
         "\<forall>(r, i, m) \<in> set trs. \<exists>used. emitted_from E cfg texts pn used r i m"
      by blast
    from that t(1) obtain r i where "(r, i, m) \<in> set trs"
      by (auto simp: match_ayat_with_texts_def)
    with t(2) show ?thesis by blast
  qed
  show ?thesis
  proof (intro conjI ballI impI)
    fix m
    assume "m \<in> set (match_ayat_with_texts E cfg ayat_df texts pn)"
    from e [OF this] obtain r i used where em: "emitted_from E cfg texts pn used r i m" by blast
    note f = emitted_from_facts [OF em]
    have "texts ! i \<in> set texts" using f(5) by simp
    then show "\<exists>t \<in> set texts. text_extracted m = etext t \<and> m_bbox m = bbox t \<and>
        m_source m = source t \<and> m_confidence m = confidence t * similarity m"
      using f(6-9) by blast
  next
    fix m
    assume c: "\<forall>t \<in> set texts. confidence t \<le> 1"
      and "m \<in> set (match_ayat_with_texts E cfg ayat_df texts pn)"
    from e [OF this(2)] obtain r i used where em: "emitted_from E cfg texts pn used r i m" by blast
    note f = emitted_from_facts [OF em]
    have "confidence (texts ! i) \<le> 1" using c f(5) by simp
    then have "confidence (texts ! i) * similarity m \<le> 1 * similarity m"
      using f(2) by (intro mult_right_mono) simp_all
    then show "m_confidence m \<le> similarity m" using f(9) by simp
  qed
qed

theorem match_confidence_is_product_witness:
  "map m_confidence (match_ayat_with_texts example_env example_config example_ayat example_texts 1)
     = [87 / 200] \<and>
   map text_extracted (match_ayat_with_texts example_env example_config example_ayat example_texts 1)
     = [etext beh_fragment] \<and>
   confidence beh_fragment = 1 / 2 \<and> confidence digit_fragment \<le> 1 \<and>
   m_confidence (make_match example_env 1 (example_row 1 2) beh_fragment (87 / 100))
     \<le> similarity (make_match example_env 1 (example_row 1 2) beh_fragment (87 / 100))"
proof -
  let ?m = "make_match example_env 1 (example_row 1 2) beh_fragment (87 / 100)"
  have r: "match_ayat_with_texts example_env example_config example_ayat example_texts 1 = [?m]"
    by (simp add: match_ayat_with_texts_def example_run)
  have c: "\<forall>t \<in> set example_texts. confidence t \<le> 1"
    by (simp add: example_texts_def digit_fragment_def beh_fragment_def)
  from match_confidence_is_product [of example_env example_config example_ayat example_texts 1] c
  have "\<forall>m \<in> set (match_ayat_with_texts example_env example_config example_ayat example_texts 1).
          m_confidence m \<le> similarity m" by blast
  then have "m_confidence ?m \<le> similarity ?m" unfolding r by simp
  then show ?thesis
    using r by (simp add: make_match_def beh_fragment_def digit_fragment_def)
qed

section \<open>The claim about the collectors\<close>

lemma collect_svg_error:
  "x \<in> set xs \<Longrightarrow> svg_element_texts E L pg x = Inl e \<Longrightarrow> \<exists>e'. collect_svg E L pg xs = Inl e'"
  by (induction xs) (auto split: sum.splits)

lemma collect_pdf_lines_error:
  "l \<in> set ls \<Longrightarrow> pdf_line_texts n l = Inl e \<Longrightarrow> \<exists>e'. collect_pdf_lines n ls = Inl e'"
  by (induction ls) (auto split: sum.splits)

lemma collect_pdf_blocks_error:
  "b \<in> set bs \<Longrightarrow> block_type b = 0 \<Longrightarrow> collect_pdf_lines n (block_lines b) = Inl e
     \<Longrightarrow> \<exists>e'. collect_pdf_blocks n bs = Inl e'"
  by (induction bs) (auto split: sum.splits)

text \<open>
  Claim C9. When the page source cannot be parsed, the collector returns the empty list:
  for an SVG file that \<open>ET.parse\<close> rejects, and for an exception raised at any element of
  the tree; for a PDF that cannot be opened, for a page number out of range, for a page
  whose text cannot be read, and for an exception raised at any line of the page.
\<close>

theorem collectors_return_empty_on_error:
  "extract_from_svg E L cfg pg None = [] \<and>
   (x \<in> set (iter tree) \<and> svg_element_texts E L pg x = Inl e \<longrightarrow>
      extract_from_svg E L cfg pg (Some tree) = []) \<and>
   extract_from_pdf Unopenable n = [] \<and>
   (n < 0 \<or> int (length pages) \<le> n \<longrightarrow> extract_from_pdf (Document pages) n = []) \<and>
   (0 \<le> n \<and> n < int (length pages) \<and> pages ! nat n = Page_unreadable \<longrightarrow>
      extract_from_pdf (Document pages) n = []) \<and>
   (0 \<le> n \<and> n < int (length pages) \<and> pages ! nat n = Page_dict blocks \<and>
    b \<in> set blocks \<and> block_type b = 0 \<and> l \<in> set (block_lines b) \<and>
    pdf_line_texts n l = Inl e' \<longrightarrow>
      extract_from_pdf (Document pages) n = [])"
proof (intro conjI impI)
  show "extract_from_svg E L cfg pg None = []" by (simp add: extract_from_svg_def)
  show "extract_from_pdf Unopenable n = []" by (simp add: extract_from_pdf_def)
next
  assume "x \<in> set (iter tree) \<and> svg_element_texts E L pg x = Inl e"
  then obtain e' where "collect_svg E L pg (iter tree) = Inl e'"
    using collect_svg_error by blast
  then show "extract_from_svg E L cfg pg (Some tree) = []" by (simp add: extract_from_svg_def)
next
  assume "n < 0 \<or> int (length pages) \<le> n"
  then show "extract_from_pdf (Document pages) n = []" by (auto simp: extract_from_pdf_def)
next
  assume "0 \<le> n \<and> n < int (length pages) \<and> pages ! nat n = Page_unreadable"
  then show "extract_from_pdf (Document pages) n = []" by (simp add: extract_from_pdf_def)
next
  assume a: "0 \<le> n \<and> n < int (length pages) \<and> pages ! nat n = Page_dict blocks \<and>
    b \<in> set blocks \<and> block_type b = 0 \<and> l \<in> set (block_lines b) \<and>
    pdf_line_texts n l = Inl e'"
  then obtain e1 where "collect_pdf_lines n (block_lines b) = Inl e1"
    using collect_pdf_lines_error by blast
  with a obtain e2 where "collect_pdf_blocks n blocks = Inl e2"
    using collect_pdf_blocks_error by blast
  with a show "extract_from_pdf (Document pages) n = []" by (simp add: extract_from_pdf_def)
qed

theorem collectors_return_empty_on_error_witness:
  "broken_text_element \<in> set (iter broken_svg) \<and>
   svg_element_texts example_env example_svg_lib 1 broken_text_element = Inl ValueError \<and>
   extract_from_svg example_env example_svg_lib example_config 1 (Some broken_svg) = [] \<and>
   extract_from_pdf (Document [Page_unreadable]) 1 = [] \<and>
   extract_from_pdf (Document [Page_unreadable]) 0 = [] \<and>
   pdf_line_texts 0 (hd (block_lines (hd broken_pdf_page))) = Inl KeyError \<and>
   extract_from_pdf (Document [Page_dict broken_pdf_page]) 0 = []"
proof -
  have m: "broken_text_element \<in> set (iter broken_svg)"
    by (simp add: broken_svg_def broken_text_element_def)
  have s: "svg_element_texts example_env example_svg_lib 1 broken_text_element = Inl ValueError"
    by (simp add: svg_element_texts_def broken_text_element_def extract_text_element_content_def
          strip_def is_space_def float_attr_def example_svg_lib_def suffix_def)
  have k: "pdf_line_texts 0 (hd (block_lines (hd broken_pdf_page))) = Inl KeyError"
    by (simp add: pdf_line_texts_def broken_pdf_page_def strip_def is_space_def)
  have p: "hd broken_pdf_page \<in> set broken_pdf_page" "block_type (hd broken_pdf_page) = 0"
    "hd (block_lines (hd broken_pdf_page)) \<in> set (block_lines (hd broken_pdf_page))"
    by (simp_all add: broken_pdf_page_def)
  note svg = collectors_return_empty_on_error
    [of example_env example_svg_lib example_config 1 broken_text_element broken_svg ValueError
        1 "[Page_unreadable]"]
  note pdf0 = collectors_return_empty_on_error
    [of example_env example_svg_lib example_config 1 broken_text_element broken_svg ValueError
        0 "[Page_unreadable]"]
  note pdf1 = collectors_return_empty_on_error
    [of example_env example_svg_lib example_config 1 broken_text_element broken_svg ValueError
        0 "[Page_dict broken_pdf_page]" broken_pdf_page "hd broken_pdf_page"
        "hd (block_lines (hd broken_pdf_page))" KeyError]
  have "extract_from_svg example_env example_svg_lib example_config 1 (Some broken_svg) = []"
    using svg m s by blast
  moreover have "extract_from_pdf (Document [Page_unreadable]) 1 = []" using svg by simp
  moreover have "extract_from_pdf (Document [Page_unreadable]) 0 = []" using pdf0 by simp
  moreover have "extract_from_pdf (Document [Page_dict broken_pdf_page]) 0 = []"
    using pdf1 k p by simp
  ultimately show ?thesis using m s k by simp
qed

section \<open>Properties of the reconciler\<close>

lemma merge_loop_no_regions:
  "merge_loop [] ts (merged, used) = (merged @ ts, used)"
  by (induction ts arbitrary: merged) (simp_all add: enumerate_eq_zip)

text \<open>
  Claim C6. Merging any primary fragment sequence with an analysis that has no regions
  returns the primary sequence itself: the same fragments in the same order.
\<close>

theorem merge_ai_results_empty_secondary:
  "merge_ai_results primary (ai\<lparr>text_regions := []\<rparr>) = primary"
  by (simp add: merge_ai_results_def merge_loop_no_regions enumerate_eq_zip)







end
